(* ===== verification/Prelude.thy ===== *)
theory Prelude
  imports Main "HOL-Library.Multiset"
begin

text \<open>
  Shared vocabulary of the development: the names of the model's base types
  (user ids, slugs, timestamps), the rule collections the component theories
  feed, and generic facts about lists that the table and handler proofs share.
  A database table is a Python/SQL row list in heap (insertion) order, so most
  of these facts are about \<open>filter\<close>, \<open>map\<close> and \<open>distinct\<close>.
\<close>

type_synonym user_id = nat
type_synonym slug = string
type_synonym timestamp = int

named_theorems table_simps "evaluation rules of the SQL statement layer"
named_theorems wf_intros "facts that establish the store's well-formedness"

subsection \<open>\<open>scalars().first()\<close>\<close>

text \<open>
  SQLAlchemy's \<open>ScalarResult.first()\<close> returns the first row of a result or
  \<open>None\<close> when it is empty; it never raises.
\<close>

definition first :: "'a list \<Rightarrow> 'a option" where
  "first xs = (case xs of [] \<Rightarrow> None | x # _ \<Rightarrow> Some x)"

lemma first_simps [simp, table_simps]:
  "first [] = None"
  "first (x # xs) = Some x"
  by (simp_all add: first_def)

lemma first_None_iff [simp]: "first xs = None \<longleftrightarrow> xs = []"
  by (cases xs) simp_all

lemma first_Some_iff: "first xs = Some x \<longleftrightarrow> (\<exists>ys. xs = x # ys)"
  by (cases xs) auto

lemma first_Some_mem: "first xs = Some x \<Longrightarrow> x \<in> set xs"
  by (auto simp: first_Some_iff)

lemma first_filter_SomeD: "first (filter P xs) = Some x \<Longrightarrow> x \<in> set xs \<and> P x"
  by (drule first_Some_mem) simp

lemma first_filter_singleton:
  "filter P xs = [x] \<Longrightarrow> first (filter P xs) = Some x"
  by simp

subsection \<open>Lists of rows\<close>

lemma filter_key_absent:
  "v \<notin> set (map k xs) \<Longrightarrow> filter (\<lambda>r. k r = v) xs = []"
  by (auto simp: filter_empty_conv)

lemma filter_distinct_key_le1:
  assumes "distinct (map k xs)"
  shows "length (filter (\<lambda>r. k r = v) xs) \<le> 1"
  using assms
proof (induction xs)
  case Nil
  then show ?case by simp
next
  case (Cons x xs)
  show ?case
  proof (cases "k x = v")
    case True
    with Cons.prems have "filter (\<lambda>r. k r = v) xs = []"
      by (intro filter_key_absent) simp
    with True show ?thesis by simp
  next
    case False
    with Cons show ?thesis by simp
  qed
qed

lemma filter_distinct_key_single:
  assumes "distinct (map k xs)" and "r \<in> set xs" and "k r = v"
  shows "filter (\<lambda>r. k r = v) xs = [r]"
  using assms
proof (induction xs)
  case Nil
  then show ?case by simp
next
  case (Cons x xs)
  then show ?case
    by (auto simp: filter_empty_conv image_iff)
qed

lemma distinct_map_filter_keep:
  "distinct (map k xs) \<Longrightarrow> distinct (map k (filter P xs))"
  by (induction xs) auto

lemma map_eq_on_filter:
  "(\<And>r. r \<in> set xs \<Longrightarrow> P r \<Longrightarrow> f r = r) \<Longrightarrow>
   map (\<lambda>r. if P r then f r else r) xs = xs"
  by (induction xs) auto

lemma distinct_map_update_key:
  assumes "distinct (map k xs)" and "r \<in> set xs" and "k r = v"
  shows "distinct (map (\<lambda>x. if k x = v then v' else k x) xs) \<longleftrightarrow>
         v' = v \<or> v' \<notin> set (map k xs)"
  using assms
proof (induction xs)
  case Nil
  then show ?case by simp
next
  case (Cons x xs)
  show ?case
  proof (cases "k x = v")
    case True
    with Cons.prems have "v \<notin> set (map k xs)" by simp
    then have eq: "map (\<lambda>x. if k x = v then v' else k x) xs = map k xs"
      by (intro map_cong) auto
    show ?thesis using True Cons.prems by (auto simp: eq image_iff)
  next
    case False
    with Cons.prems have r: "r \<in> set xs" by auto
    have "v' \<in> set (map (\<lambda>x. if k x = v then v' else k x) xs)"
      using r Cons.prems(3) by (force simp: image_iff)
    moreover have "k x \<in> set (map (\<lambda>x. if k x = v then v' else k x) xs) \<longleftrightarrow> k x = v'"
      using r Cons.prems False by (force simp: image_iff)
    ultimately show ?thesis
      using Cons.IH[OF _ r Cons.prems(3)] Cons.prems(1) False by auto
  qed
qed

lemma map_key_if:
  "map (k \<circ> (\<lambda>x. if P x then g x else x)) xs = map (\<lambda>x. if P x then k (g x) else k x) xs"
  by (induction xs) auto

lemma filter_update_key_single:
  assumes "distinct (map k xs)" and "r \<in> set xs" and "k r = v"
    and "\<And>x. k (g x) = v'" and "v' = v \<or> v' \<notin> set (map k xs)"
  shows "filter (\<lambda>x. k x = v') (map (\<lambda>x. if k x = v then g x else x) xs) = [g r]"
proof (rule filter_distinct_key_single)
  have "map k (map (\<lambda>x. if k x = v then g x else x) xs) = map (\<lambda>x. if k x = v then v' else k x) xs"
    using assms(4) by (simp add: map_key_if)
  then show "distinct (map k (map (\<lambda>x. if k x = v then g x else x) xs))"
    using distinct_map_update_key[OF assms(1-3), of v'] assms(5) by (simp only:)
  show "g r \<in> set (map (\<lambda>x. if k x = v then g x else x) xs)"
    using assms(2,3) by force
  show "k (g r) = v'" by (rule assms(4))
qed

lemma mset_le1_eq: "length xs \<le> 1 \<Longrightarrow> mset xs = mset ys \<Longrightarrow> xs = ys"
  by (cases xs; cases ys) (auto dest: mset_eq_length simp: add_mset_eq_single)

lemma filter_other_keys_remove1:
  assumes "distinct (map k xs)" and "t \<in> set xs"
  shows "filter (\<lambda>r. k r \<noteq> k t) xs = remove1 t xs"
  using assms
proof (induction xs)
  case Nil
  then show ?case by simp
next
  case (Cons x xs)
  show ?case
  proof (cases "x = t")
    case True
    with Cons.prems have "\<forall>r \<in> set xs. k r \<noteq> k t" by (auto simp: image_iff)
    with True show ?thesis by (simp add: filter_id_conv)
  next
    case False
    with Cons.prems have "k x \<noteq> k t" by (auto simp: image_iff)
    with False Cons show ?thesis by simp
  qed
qed

end
