(* ===== verification/Entities.thy ===== *)
theory Entities
  imports Prelude
begin

text \<open>
  The entity model (the ORM classes \<open>Category\<close>, \<open>Theme\<close>, \<open>Task\<close> of
  \<open>todo_app.models.entries\<close> and the request forms \<open>CategoryCreate\<close>,
  \<open>CategoryUpdate\<close>, \<open>TaskCreate\<close>, \<open>TaskUpdate\<close> of
  \<open>todo_app.schemas.entries\<close>, which are not part of the reviewed sources and
  are modelled from the specification). Every persisted row has a primary key
  and a slug; categories and tasks also carry their owner's user id. The record
  hierarchy mirrors what the routers rely on: \<open>Task.user_id\<close>,
  \<open>Task.theme_id\<close>, \<open>Task.creation_date\<close>, \<open>Theme.cat\<close> (the foreign key
  \<open>cat_id\<close>), \<open>Category.user_id\<close> and the \<open>slug\<close> columns. The display
  columns the specification leaves open are one \<open>title\<close> string.
  The primary key \<open>id\<close> is called \<open>row_id\<close>, since \<open>id\<close> is the identity
  function of HOL.
\<close>

record entity =
  row_id :: nat
  slug :: slug
  title :: string

record owned = entity +
  user_id :: user_id

type_synonym category = owned

record theme = entity +
  cat_id :: nat

record task = owned +
  creation_date :: timestamp
  theme_id :: nat

subsection \<open>Request forms\<close>

text \<open>
  The forms carry every column but the primary key, which the database
  assigns; \<open>insert(E).values(**form.dict())\<close> and
  \<open>update(E).values(**form.dict())\<close> write all of them.
\<close>

record category_form =
  cf_title :: string
  cf_slug :: slug
  cf_user_id :: user_id

record task_form =
  tf_title :: string
  tf_slug :: slug
  tf_creation_date :: timestamp
  tf_user_id :: user_id
  tf_theme_id :: nat

definition category_of_form :: "nat \<Rightarrow> category_form \<Rightarrow> category" where
  "category_of_form i f =
     \<lparr>row_id = i, slug = cf_slug f, title = cf_title f, user_id = cf_user_id f\<rparr>"

definition task_of_form :: "nat \<Rightarrow> task_form \<Rightarrow> task" where
  "task_of_form i f =
     \<lparr>row_id = i, slug = tf_slug f, title = tf_title f, user_id = tf_user_id f,
      creation_date = tf_creation_date f, theme_id = tf_theme_id f\<rparr>"

text \<open>\<open>.values(**form.dict())\<close> on an existing row: every form column is
  written, the primary key is kept.\<close>

definition set_category_values :: "category_form \<Rightarrow> category \<Rightarrow> category" where
  "set_category_values f c = category_of_form (row_id c) f"

definition set_task_values :: "task_form \<Rightarrow> task \<Rightarrow> task" where
  "set_task_values f t = task_of_form (row_id t) f"

lemma category_of_form_sel [simp]:
  "row_id (category_of_form i f) = i"
  "slug (category_of_form i f) = cf_slug f"
  "title (category_of_form i f) = cf_title f"
  "user_id (category_of_form i f) = cf_user_id f"
  by (simp_all add: category_of_form_def)

lemma task_of_form_sel [simp]:
  "row_id (task_of_form i f) = i"
  "slug (task_of_form i f) = tf_slug f"
  "title (task_of_form i f) = tf_title f"
  "user_id (task_of_form i f) = tf_user_id f"
  "creation_date (task_of_form i f) = tf_creation_date f"
  "theme_id (task_of_form i f) = tf_theme_id f"
  by (simp_all add: task_of_form_def)

lemma set_values_row_id [simp]:
  "row_id (set_category_values cf c) = row_id c"
  "row_id (set_task_values tf t) = row_id t"
  by (simp_all add: set_category_values_def set_task_values_def)

lemma set_values_sel [simp]:
  "slug (set_category_values cf c) = cf_slug cf"
  "user_id (set_category_values cf c) = cf_user_id cf"
  "slug (set_task_values tf t) = tf_slug tf"
  "user_id (set_task_values tf t) = tf_user_id tf"
  "theme_id (set_task_values tf t) = tf_theme_id tf"
  "creation_date (set_task_values tf t) = tf_creation_date tf"
  by (simp_all add: set_category_values_def set_task_values_def)

end
