(* ===== verification/Query.thy ===== *)
theory Query
  imports Entities
begin

text \<open>
  The SQL statements the routers build with SQLAlchemy Core
  (\<open>insert(E).values(..).returning(E)\<close>, \<open>select(E).where(..)\<close>,
  \<open>update(E).where(..).values(..).returning(E)\<close>, \<open>delete(E).where(..)\<close>,
  \<open>.order_by(desc(..))\<close>), as functions on one table. A table is its rows in
  heap order (a new row goes to the end, and an unordered scan returns rows
  in that order) and the value last issued by its \<open>SERIAL\<close> primary-key
  sequence. The statements are generic in the row type: any extension of
  \<open>entity\<close>, so one set of lemmas serves categories, themes and tasks.
  The descending sort is shown to meet the listing contract, to equal the
  library's stable \<^const>\<open>sort_key\<close> read backwards, and to be the only
  admissible order when keys are distinct.
\<close>

record 'r table =
  rows :: "'r list"
  seq :: nat

definition empty_table :: "'r table" where
  "empty_table = \<lparr>rows = [], seq = 0\<rparr>"

subsection \<open>Statements\<close>

text \<open>\<open>INSERT ... RETURNING\<close>: the key is the sequence's next value; the
  statement returns the inserted row.\<close>

definition insert_returning ::
  "(nat \<Rightarrow> 'r) \<Rightarrow> 'r table \<Rightarrow> 'r list \<times> 'r table" where
  "insert_returning mk t =
     (let i = Suc (seq t); r = mk i
      in ([r], t\<lparr>rows := rows t @ [r], seq := i\<rparr>))"

text \<open>\<open>SELECT ... WHERE\<close>: the matching rows in scan order.\<close>

definition select_where :: "('r \<Rightarrow> bool) \<Rightarrow> 'r table \<Rightarrow> 'r list" where
  "select_where P t = filter P (rows t)"

text \<open>\<open>UPDATE ... WHERE ... RETURNING\<close>: every matching row gets the new
  values, the statement returns the updated rows in scan order.\<close>

definition update_returning ::
  "('r \<Rightarrow> bool) \<Rightarrow> ('r \<Rightarrow> 'r) \<Rightarrow> 'r table \<Rightarrow> 'r list \<times> 'r table" where
  "update_returning P g t =
     (map g (filter P (rows t)),
      t\<lparr>rows := map (\<lambda>r. if P r then g r else r) (rows t)\<rparr>)"

text \<open>\<open>DELETE ... WHERE\<close>: removes every matching row; no row matching is
  no error.\<close>

definition delete_where :: "('r \<Rightarrow> bool) \<Rightarrow> 'r table \<Rightarrow> 'r table" where
  "delete_where P t = t\<lparr>rows := filter (\<lambda>r. \<not> P r) (rows t)\<rparr>"

subsection \<open>\<open>ORDER BY key DESC\<close>\<close>

text \<open>
  The database promises rows in descending key order and nothing about rows
  with equal keys. The model's sort is one admissible order: an insertion
  sort that keeps rows with equal keys in scan order.
\<close>

fun ins_desc :: "('r \<Rightarrow> 'k::linorder) \<Rightarrow> 'r \<Rightarrow> 'r list \<Rightarrow> 'r list" where
  "ins_desc f x [] = [x]"
| "ins_desc f x (y # ys) = (if f y \<le> f x then x # y # ys else y # ins_desc f x ys)"

fun order_by_desc :: "('r \<Rightarrow> 'k::linorder) \<Rightarrow> 'r list \<Rightarrow> 'r list" where
  "order_by_desc f [] = []"
| "order_by_desc f (x # xs) = ins_desc f x (order_by_desc f xs)"

text \<open>The contract of a listing: the rows of the source that satisfy the
  filter, each once, newest (largest key) first.\<close>

definition sorted_desc :: "('r \<Rightarrow> 'k::linorder) \<Rightarrow> 'r list \<Rightarrow> bool" where
  "sorted_desc f ys = sorted_wrt (\<lambda>a b. f b \<le> f a) ys"

definition listing_spec ::
  "('r \<Rightarrow> 'k::linorder) \<Rightarrow> ('r \<Rightarrow> bool) \<Rightarrow> 'r list \<Rightarrow> 'r list \<Rightarrow> bool" where
  "listing_spec f P xs ys \<longleftrightarrow> mset ys = mset (filter P xs) \<and> sorted_desc f ys"

subsection \<open>Evaluation rules\<close>

lemma insert_returning_simps [table_simps]:
  "fst (insert_returning mk t) = [mk (Suc (seq t))]"
  "rows (snd (insert_returning mk t)) = rows t @ [mk (Suc (seq t))]"
  "seq (snd (insert_returning mk t)) = Suc (seq t)"
  by (simp_all add: insert_returning_def Let_def)

lemma update_returning_simps [table_simps]:
  "fst (update_returning P g t) = map g (filter P (rows t))"
  "rows (snd (update_returning P g t)) = map (\<lambda>r. if P r then g r else r) (rows t)"
  "seq (snd (update_returning P g t)) = seq t"
  by (simp_all add: update_returning_def)

lemma delete_where_simps [table_simps]:
  "rows (delete_where P t) = filter (\<lambda>r. \<not> P r) (rows t)"
  "seq (delete_where P t) = seq t"
  by (simp_all add: delete_where_def)

lemma update_returning_no_match:
  assumes "filter P (rows t) = []"
  shows "update_returning P g t = ([], t)"
proof -
  from assms have "map (\<lambda>r. if P r then g r else r) (rows t) = rows t"
    by (intro map_eq_on_filter) (auto simp: filter_empty_conv)
  with assms show ?thesis by (simp add: update_returning_def)
qed

lemma delete_where_idem [simp]: "delete_where P (delete_where P t) = delete_where P t"
  by (simp add: delete_where_def)

lemma delete_where_no_match:
  "filter P (rows t) = [] \<Longrightarrow> delete_where P t = t"
  by (simp add: delete_where_def filter_empty_conv filter_id_conv)

subsection \<open>The sort meets its contract\<close>

lemma mset_ins_desc [simp]: "mset (ins_desc f x ys) = add_mset x (mset ys)"
  by (induction ys) auto

lemma mset_order_by_desc [simp]: "mset (order_by_desc f xs) = mset xs"
  by (induction xs) auto

lemma set_order_by_desc [simp]: "set (order_by_desc f xs) = set xs"
  by (metis mset_order_by_desc set_mset_mset)

lemma length_order_by_desc [simp]: "length (order_by_desc f xs) = length xs"
  by (metis mset_order_by_desc size_mset)

lemma set_ins_desc: "set (ins_desc f x ys) = insert x (set ys)"
  by (metis mset_ins_desc set_mset_add_mset_insert set_mset_mset)

lemma sorted_desc_ins_desc:
  "sorted_desc f ys \<Longrightarrow> sorted_desc f (ins_desc f x ys)"
proof (induction ys)
  case Nil
  then show ?case by (simp add: sorted_desc_def)
next
  case (Cons y ys)
  then show ?case
    by (auto simp: sorted_desc_def set_ins_desc)
qed

lemma sorted_desc_order_by_desc: "sorted_desc f (order_by_desc f xs)"
  by (induction xs) (simp_all add: sorted_desc_ins_desc, simp add: sorted_desc_def)

lemma filter_key_ins_desc:
  "filter (\<lambda>y. f y = k) (ins_desc f x ys) =
     (if f x = k then x # filter (\<lambda>y. f y = k) ys else filter (\<lambda>y. f y = k) ys)"
  by (induction ys) auto

text \<open>Stability: among rows with the same key, the scan order is kept.\<close>

lemma order_by_desc_stable:
  "filter (\<lambda>y. f y = k) (order_by_desc f xs) = filter (\<lambda>y. f y = k) xs"
  by (induction xs) (simp_all add: filter_key_ins_desc)

lemma listing_spec_order_by_desc:
  "listing_spec f P xs (order_by_desc f (filter P xs))"
  by (simp add: listing_spec_def sorted_desc_order_by_desc)

subsection \<open>The sort is the library's stable sort, reversed\<close>

text \<open>Descending order with ties in scan order is the library's stable
  ascending \<^const>\<open>sort_key\<close> applied to the reversed rows, reversed
  back. With distinct keys the contract admits one listing only.\<close>

lemma sorted_desc_rev_sorted: "sorted_desc f ys \<longleftrightarrow> sorted (map f (rev ys))"
  by (simp add: sorted_desc_def sorted_map sorted_wrt_rev)

lemma rev_order_by_desc: "sort_key f (rev xs) = rev (order_by_desc f xs)"
proof (rule properties_for_sort_key)
  show "mset (rev (order_by_desc f xs)) = mset (rev xs)" by simp
  show "sorted (map f (rev (order_by_desc f xs)))"
    using sorted_desc_order_by_desc sorted_desc_rev_sorted by blast
  fix k
  show "filter (\<lambda>y. f k = f y) (rev (order_by_desc f xs)) = filter (\<lambda>y. f k = f y) (rev xs)"
    using order_by_desc_stable[of f "f k" xs] by (simp add: rev_filter[symmetric] eq_commute)
qed

lemma listing_spec_unique:
  assumes "listing_spec f P xs ys" and "distinct (map f (filter P xs))"
  shows "ys = order_by_desc f (filter P xs)"
proof -
  have m: "mset ys = mset (filter P xs)" using assms(1) by (simp add: listing_spec_def)
  then have d: "distinct (map f ys)" using assms(2)
    by (metis mset_map mset_eq_imp_distinct_iff)
  have "rev ys = sort_key f (rev (filter P xs))"
  proof (rule properties_for_sort_key[symmetric])
    show "mset (rev ys) = mset (rev (filter P xs))" using m by simp
    show "sorted (map f (rev ys))"
      using assms(1) by (simp add: listing_spec_def sorted_desc_rev_sorted)
    fix k
    have "length (filter (\<lambda>y. f y = f k) (rev ys)) \<le> 1"
      using d by (intro filter_distinct_key_le1) (simp add: rev_map[symmetric])
    moreover have "mset (filter (\<lambda>y. f y = f k) (rev ys)) =
        mset (filter (\<lambda>y. f y = f k) (rev (filter P xs)))"
      using m by (simp add: mset_filter)
    ultimately have "filter (\<lambda>y. f y = f k) (rev ys) = filter (\<lambda>y. f y = f k) (rev (filter P xs))"
      by (rule mset_le1_eq)
    then show "filter (\<lambda>y. f k = f y) (rev ys) = filter (\<lambda>y. f k = f y) (rev (filter P xs))"
      by (simp add: eq_commute)
  qed
  then show ?thesis by (simp add: rev_order_by_desc rev_swap)
qed

end
