(* ===== verification/Store.thy ===== *)
theory Store
  imports Query
begin

text \<open>
  The relational store behind \<open>get_async_session\<close>: the three tables, the
  constraints the storage engine enforces on them, and one request's session
  (\<open>await session.execute(stmt)\<close> followed by \<open>await session.commit()\<close>).
  The constraints are those the specification names: primary keys, a unique
  slug per category and per task, and the foreign keys
  \<open>theme.cat_id \<rightarrow> category.id\<close> and \<open>task.theme_id \<rightarrow> theme.id\<close> with the
  default \<open>NO ACTION\<close> rule (a statement that would leave a dangling
  reference fails). A statement is checked against them when it completes;
  a failing statement raises, the handler never reaches \<open>commit\<close>, and the
  session's rollback leaves the store as it was.
\<close>

record db =
  categories :: "category table"
  themes :: "theme table"
  tasks :: "task table"

datatype constraint =
    Category_pkey | Category_slug_key
  | Theme_pkey | Theme_cat_id_fkey
  | Task_pkey | Task_slug_key | Task_theme_id_fkey

text \<open>Errors a request can end in: the authentication dependency rejecting
  the caller (HTTP 401), a constraint violation raised by the store, or the
  connection to the store failing (the server error of section 7(e) of the
  specification; see theory \<open>Service\<close>).\<close>

datatype error = Unauthorized | IntegrityError constraint | StoreUnavailable

text \<open>The dependency \<open>current_active_user\<close> (\<open>todo_app.auth.config\<close>, not
  under review): the id of the authenticated, active caller, or a 401 before
  the handler runs. The caller is given as \<open>None\<close> when there is none.\<close>

definition current_active_user :: "user_id option \<Rightarrow> error + user_id" where
  "current_active_user u = (case u of None \<Rightarrow> Inl Unauthorized | Some i \<Rightarrow> Inr i)"

text \<open>The body \<open>{'status': 'success'}\<close> of the delete handlers.\<close>

definition status_success :: "(string \<times> string) list" where
  "status_success = [(''status'', ''success'')]"

definition ids :: "'a entity_scheme table \<Rightarrow> nat list" where
  "ids t = map row_id (rows t)"

definition slugs :: "'a entity_scheme table \<Rightarrow> slug list" where
  "slugs t = map slug (rows t)"

text \<open>The first violated constraint, in the order the engine checks them:
  unique indexes while the rows are written, foreign keys at the end of the
  statement.\<close>

definition violation :: "db \<Rightarrow> constraint option" where
  "violation s =
     (if \<not> distinct (ids (categories s)) then Some Category_pkey
      else if \<not> distinct (slugs (categories s)) then Some Category_slug_key
      else if \<not> distinct (ids (themes s)) then Some Theme_pkey
      else if \<not> distinct (ids (tasks s)) then Some Task_pkey
      else if \<not> distinct (slugs (tasks s)) then Some Task_slug_key
      else if \<not> (\<forall>th \<in> set (rows (themes s)). cat_id th \<in> set (ids (categories s)))
        then Some Theme_cat_id_fkey
      else if \<not> (\<forall>t \<in> set (rows (tasks s)). theme_id t \<in> set (ids (themes s)))
        then Some Task_theme_id_fkey
      else None)"

text \<open>One statement in its own transaction: run it, then commit; on a
  violation the exception propagates and nothing is committed.\<close>

definition execute_commit :: "(db \<Rightarrow> 'a \<times> db) \<Rightarrow> db \<Rightarrow> (error + 'a) \<times> db" where
  "execute_commit stmt s =
     (case stmt s of (res, s') \<Rightarrow>
        (case violation s' of
           None \<Rightarrow> (Inr res, s')
         | Some c \<Rightarrow> (Inl (IntegrityError c), s)))"

text \<open>Statements on one table, lifted to the store.\<close>

definition on_categories ::
  "(category table \<Rightarrow> 'a \<times> category table) \<Rightarrow> db \<Rightarrow> 'a \<times> db" where
  "on_categories f s = (case f (categories s) of (a, t) \<Rightarrow> (a, s\<lparr>categories := t\<rparr>))"

definition on_tasks :: "(task table \<Rightarrow> 'a \<times> task table) \<Rightarrow> db \<Rightarrow> 'a \<times> db" where
  "on_tasks f s = (case f (tasks s) of (a, t) \<Rightarrow> (a, s\<lparr>tasks := t\<rparr>))"

subsection \<open>Well-formed stores\<close>

text \<open>A store is well formed when it satisfies its constraints and every
  sequence is ahead of the keys of its table, so that the next key it issues
  is fresh.\<close>

definition seq_ok :: "'a entity_scheme table \<Rightarrow> bool" where
  "seq_ok t \<longleftrightarrow> (\<forall>i \<in> set (ids t). i \<le> seq t)"

definition wf_db :: "db \<Rightarrow> bool" where
  "wf_db s \<longleftrightarrow> violation s = None \<and> seq_ok (categories s) \<and> seq_ok (themes s)
     \<and> seq_ok (tasks s)"

definition empty_db :: db where
  "empty_db = \<lparr>categories = empty_table, themes = empty_table, tasks = empty_table\<rparr>"

lemma violation_None_iff:
  "violation s = None \<longleftrightarrow>
     distinct (ids (categories s)) \<and> distinct (slugs (categories s))
     \<and> distinct (ids (themes s)) \<and> distinct (ids (tasks s))
     \<and> distinct (slugs (tasks s))
     \<and> (\<forall>th \<in> set (rows (themes s)). cat_id th \<in> set (ids (categories s)))
     \<and> (\<forall>t \<in> set (rows (tasks s)). theme_id t \<in> set (ids (themes s)))"
  by (simp add: violation_def)

lemma execute_commit_ok:
  "stmt s = (res, s') \<Longrightarrow> violation s' = None \<Longrightarrow> execute_commit stmt s = (Inr res, s')"
  by (simp add: execute_commit_def)

lemma execute_commit_fail:
  "stmt s = (res, s') \<Longrightarrow> violation s' = Some c \<Longrightarrow>
   execute_commit stmt s = (Inl (IntegrityError c), s)"
  by (simp add: execute_commit_def)

text \<open>Whatever the statement, the session leaves a store that satisfies the
  constraints, or the one it started from.\<close>

lemma execute_commit_cases:
  assumes "execute_commit stmt s = (r, s')"
  obtains res where "r = Inr res" "stmt s = (res, s')" "violation s' = None"
  | c where "r = Inl (IntegrityError c)" "s' = s" "violation (snd (stmt s)) = Some c"
  using assms
  by (cases "stmt s"; cases "violation (snd (stmt s))") (auto simp: execute_commit_def)

text \<open>A statement that changes one table of a store that satisfied its
  constraints can violate only the constraints of that table and of the
  foreign keys into or out of it.\<close>

lemma violation_set_tasks:
  assumes "violation s = None"
  shows "violation (s\<lparr>tasks := t\<rparr>) =
    (if \<not> distinct (ids t) then Some Task_pkey
     else if \<not> distinct (slugs t) then Some Task_slug_key
     else if \<not> (\<forall>x \<in> set (rows t). theme_id x \<in> set (ids (themes s)))
       then Some Task_theme_id_fkey
     else None)"
  using assms by (simp add: violation_def split: if_splits)

lemma violation_set_categories:
  assumes "violation s = None"
  shows "violation (s\<lparr>categories := t\<rparr>) =
    (if \<not> distinct (ids t) then Some Category_pkey
     else if \<not> distinct (slugs t) then Some Category_slug_key
     else if \<not> (\<forall>th \<in> set (rows (themes s)). cat_id th \<in> set (ids t))
       then Some Theme_cat_id_fkey
     else None)"
  using assms by (simp add: violation_def split: if_splits)

lemma seq_ok_fresh: "seq_ok t \<Longrightarrow> Suc (seq t) \<notin> set (ids t)"
  by (auto simp: seq_ok_def)

lemma wf_dbD [wf_intros]:
  "wf_db s \<Longrightarrow> violation s = None"
  "wf_db s \<Longrightarrow> seq_ok (categories s)"
  "wf_db s \<Longrightarrow> seq_ok (themes s)"
  "wf_db s \<Longrightarrow> seq_ok (tasks s)"
  by (simp_all add: wf_db_def)

lemma seq_ok_insert [wf_intros]:
  "seq_ok t \<Longrightarrow> (\<And>i. row_id (mk i) = i) \<Longrightarrow> seq_ok (snd (insert_returning mk t))"
  by (auto simp: seq_ok_def ids_def table_simps)

lemma seq_ok_update [wf_intros]:
  "seq_ok t \<Longrightarrow> (\<And>r. row_id (g r) = row_id r) \<Longrightarrow> seq_ok (snd (update_returning P g t))"
  by (auto simp: seq_ok_def ids_def table_simps)

lemma seq_ok_delete [wf_intros]: "seq_ok t \<Longrightarrow> seq_ok (delete_where P t)"
  by (auto simp: seq_ok_def ids_def table_simps)

text \<open>A session keeps the store well formed when its statement keeps the
  sequences ahead of the keys: the constraints are checked by
  \<^const>\<open>execute_commit\<close> itself.\<close>

lemma execute_commit_wf:
  assumes "wf_db s" and "execute_commit stmt s = (r, s')"
    and "seq_ok (categories (snd (stmt s)))" "seq_ok (themes (snd (stmt s)))"
    "seq_ok (tasks (snd (stmt s)))"
  shows "wf_db s'"
  using assms(2)
proof (cases rule: execute_commit_cases)
  case (1 res)
  with assms(3-5) show ?thesis by (simp add: wf_db_def)
next
  case (2 c)
  with assms(1) show ?thesis by simp
qed

lemma execute_commit_Inl:
  "fst (execute_commit stmt s) = Inl e \<Longrightarrow> snd (execute_commit stmt s) = s"
  by (cases "stmt s"; cases "violation (snd (stmt s))") (auto simp: execute_commit_def)

lemma execute_commit_state:
  "snd (execute_commit stmt s) = s \<or> snd (execute_commit stmt s) = snd (stmt s)"
  by (cases "stmt s"; cases "violation (snd (stmt s))") (auto simp: execute_commit_def)

lemma current_active_user_simps [simp]:
  "current_active_user None = Inl Unauthorized"
  "current_active_user (Some i) = Inr i"
  by (simp_all add: current_active_user_def)

lemma on_categories_simps [simp]:
  "fst (on_categories f s) = fst (f (categories s))"
  "categories (snd (on_categories f s)) = snd (f (categories s))"
  "themes (snd (on_categories f s)) = themes s"
  "tasks (snd (on_categories f s)) = tasks s"
  by (simp_all add: on_categories_def split: prod.splits)

lemma on_tasks_simps [simp]:
  "fst (on_tasks f s) = fst (f (tasks s))"
  "tasks (snd (on_tasks f s)) = snd (f (tasks s))"
  "themes (snd (on_tasks f s)) = themes s"
  "categories (snd (on_tasks f s)) = categories s"
  by (simp_all add: on_tasks_def split: prod.splits)

lemma on_categories_eq:
  "on_categories f s = (fst (f (categories s)), s\<lparr>categories := snd (f (categories s))\<rparr>)"
  by (simp add: on_categories_def split: prod.splits)

lemma on_tasks_eq:
  "on_tasks f s = (fst (f (tasks s)), s\<lparr>tasks := snd (f (tasks s))\<rparr>)"
  by (simp add: on_tasks_def split: prod.splits)

end
