(* ===== verification/TaskRouter.thy ===== *)
theory TaskRouter
  imports Store
begin

text \<open>
  The seven handlers of \<open>src/todo_app/routers/task.py\<close>, in the order the
  file declares them. A mutating handler is one statement run by
  \<^const>\<open>execute_commit\<close>; a reading handler is a query on the current
  store. The two listings by relationship are the SQL joins the code builds
  (\<open>Task \<bowtie> Theme\<close> on \<open>Task.theme_id == Theme.id\<close>, then \<open>\<bowtie> Category\<close> along
  the relationship \<open>Theme.cat\<close>), filtered and ordered as written.
\<close>

subsection \<open>Handlers\<close>

text \<open>\<open>add_new_task\<close> (lines 18--24).\<close>

definition add_new_task :: "task_form \<Rightarrow> db \<Rightarrow> (error + task option) \<times> db" where
  "add_new_task f =
     execute_commit (\<lambda>s. apfst first (on_tasks (insert_returning (\<lambda>i. task_of_form i f)) s))"

text \<open>\<open>get_all_tasks\<close> (lines 27--30).\<close>

definition get_all_tasks :: "user_id option \<Rightarrow> db \<Rightarrow> error + task list" where
  "get_all_tasks u s =
     (case current_active_user u of
        Inl e \<Rightarrow> Inl e
      | Inr uid \<Rightarrow>
          Inr (order_by_desc creation_date (select_where (\<lambda>t. user_id t = uid) (tasks s))))"

text \<open>The joins of lines 37 and 50, row by row in nested-loop order.\<close>

definition join_task_theme :: "db \<Rightarrow> (task \<times> theme) list" where
  "join_task_theme s =
     [(t, th). t \<leftarrow> rows (tasks s), th \<leftarrow> rows (themes s), theme_id t = row_id th]"

definition join_task_theme_category :: "db \<Rightarrow> (task \<times> theme \<times> category) list" where
  "join_task_theme_category s =
     [(t, th, c). (t, th) \<leftarrow> join_task_theme s, c \<leftarrow> rows (categories s), cat_id th = row_id c]"

text \<open>\<open>get_tasks_by_cat\<close> (lines 33--42).\<close>

definition get_tasks_by_cat :: "slug \<Rightarrow> user_id option \<Rightarrow> db \<Rightarrow> error + task list" where
  "get_tasks_by_cat cat_slug u s =
     (case current_active_user u of
        Inl e \<Rightarrow> Inl e
      | Inr uid \<Rightarrow>
          Inr (order_by_desc creation_date
                [t. (t, th, c) \<leftarrow> join_task_theme_category s, slug c = cat_slug,
                    user_id t = uid]))"

text \<open>\<open>get_tasks_by_theme\<close> (lines 46--55).\<close>

definition get_tasks_by_theme :: "slug \<Rightarrow> user_id option \<Rightarrow> db \<Rightarrow> error + task list" where
  "get_tasks_by_theme theme_slug u s =
     (case current_active_user u of
        Inl e \<Rightarrow> Inl e
      | Inr uid \<Rightarrow>
          Inr (order_by_desc creation_date
                [t. (t, th) \<leftarrow> join_task_theme s, slug th = theme_slug, user_id t = uid]))"

text \<open>\<open>get_task\<close> (lines 58--61): no caller, no ownership check.\<close>

definition get_task :: "slug \<Rightarrow> db \<Rightarrow> task option" where
  "get_task task_slug s = first (select_where (\<lambda>t. slug t = task_slug) (tasks s))"

text \<open>\<open>update_task\<close> (lines 64--70).\<close>

definition update_task :: "slug \<Rightarrow> task_form \<Rightarrow> db \<Rightarrow> (error + task option) \<times> db" where
  "update_task task_slug f =
     execute_commit (\<lambda>s. apfst first
       (on_tasks (update_returning (\<lambda>t. slug t = task_slug) (set_task_values f)) s))"

text \<open>\<open>delete_task\<close> (lines 73--78).\<close>

definition delete_task :: "slug \<Rightarrow> db \<Rightarrow> (error + (string \<times> string) list) \<times> db" where
  "delete_task task_slug =
     execute_commit (\<lambda>s. (status_success,
       snd (on_tasks (\<lambda>t. ((), delete_where (\<lambda>r. slug r = task_slug) t)) s)))"

subsection \<open>Specification-level notions\<close>

text \<open>The row an insert creates: the form's columns under the sequence's
  next key.\<close>

definition new_task :: "task_form \<Rightarrow> db \<Rightarrow> task" where
  "new_task f s = task_of_form (Suc (seq (tasks s))) f"

text \<open>Membership of a task in a theme or a category, by following its
  foreign keys: what the joins compute, stated without the join.\<close>

definition task_in_theme :: "db \<Rightarrow> slug \<Rightarrow> task \<Rightarrow> bool" where
  "task_in_theme s ts t \<longleftrightarrow> (\<exists>th \<in> set (rows (themes s)). row_id th = theme_id t \<and> slug th = ts)"

definition task_in_category :: "db \<Rightarrow> slug \<Rightarrow> task \<Rightarrow> bool" where
  "task_in_category s cs t \<longleftrightarrow>
     (\<exists>th \<in> set (rows (themes s)). row_id th = theme_id t \<and>
        (\<exists>c \<in> set (rows (categories s)). row_id c = cat_id th \<and> slug c = cs))"

subsection \<open>Creating, updating and deleting, branch by branch\<close>

text \<open>On a well-formed store, creating a task fails exactly when its slug is
  taken or its theme does not exist; otherwise the row is appended under a
  fresh key and returned.\<close>

lemma add_new_task_eq:
  assumes "wf_db s"
  shows "add_new_task f s =
    (if tf_slug f \<in> set (slugs (tasks s)) then (Inl (IntegrityError Task_slug_key), s)
     else if tf_theme_id f \<notin> set (ids (themes s))
       then (Inl (IntegrityError Task_theme_id_fkey), s)
     else (Inr (Some (new_task f s)),
           s\<lparr>tasks := snd (insert_returning (\<lambda>i. task_of_form i f) (tasks s))\<rparr>))"
proof -
  let ?t = "snd (insert_returning (\<lambda>i. task_of_form i f) (tasks s))"
  have ids: "ids ?t = ids (tasks s) @ [Suc (seq (tasks s))]"
    and sl: "slugs ?t = slugs (tasks s) @ [tf_slug f]"
    by (simp_all add: ids_def slugs_def table_simps)
  have fresh: "Suc (seq (tasks s)) \<notin> set (ids (tasks s))"
    using assms by (simp add: seq_ok_fresh wf_intros)
  have v: "violation s = None" using assms by (rule wf_intros)
  then have fk: "\<forall>x \<in> set (rows (tasks s)). theme_id x \<in> set (ids (themes s))"
    by (simp add: violation_None_iff)
  have "violation (s\<lparr>tasks := ?t\<rparr>) =
    (if tf_slug f \<in> set (slugs (tasks s)) then Some Task_slug_key
     else if tf_theme_id f \<notin> set (ids (themes s)) then Some Task_theme_id_fkey else None)"
    using v fresh fk violation_None_iff[of s]
    by (simp add: violation_set_tasks ids sl table_simps)
  then show ?thesis
    by (simp add: add_new_task_def execute_commit_def on_tasks_eq new_task_def
        table_simps split: if_splits)
qed

text \<open>Updating by slug: no row with that slug leaves the store as it was and
  answers \<open>None\<close>; otherwise the one such row gets the form's columns unless
  the new slug belongs to another task or the new theme does not exist.\<close>

lemma update_task_eq:
  assumes "wf_db s"
  shows "update_task sl f s =
   (case get_task sl s of
      None \<Rightarrow> (Inr None, s)
    | Some r \<Rightarrow>
        if tf_slug f \<noteq> sl \<and> tf_slug f \<in> set (slugs (tasks s))
          then (Inl (IntegrityError Task_slug_key), s)
        else if tf_theme_id f \<notin> set (ids (themes s))
          then (Inl (IntegrityError Task_theme_id_fkey), s)
        else (Inr (Some (set_task_values f r)),
              s\<lparr>tasks := snd (update_returning (\<lambda>t. slug t = sl) (set_task_values f) (tasks s))\<rparr>))"
proof -
  have v: "violation s = None" using assms by (rule wf_intros)
  then have dist: "distinct (slugs (tasks s))" "distinct (ids (tasks s))"
    and fk: "\<forall>x \<in> set (rows (tasks s)). theme_id x \<in> set (ids (themes s))"
    by (simp_all add: violation_None_iff)
  show ?thesis
  proof (cases "sl \<in> set (slugs (tasks s))")
    case False
    then have "filter (\<lambda>t. slug t = sl) (rows (tasks s)) = []"
      by (simp add: slugs_def filter_key_absent)
    with v show ?thesis
      by (simp add: update_task_def get_task_def select_where_def execute_commit_def
          on_tasks_eq update_returning_no_match)
  next
    case True
    then obtain r where r: "r \<in> set (rows (tasks s))" "slug r = sl"
      by (auto simp: slugs_def)
    have one: "filter (\<lambda>t. slug t = sl) (rows (tasks s)) = [r]"
      using dist r by (intro filter_distinct_key_single) (simp_all add: slugs_def)
    let ?t = "snd (update_returning (\<lambda>t. slug t = sl) (set_task_values f) (tasks s))"
    have ids: "ids ?t = ids (tasks s)"
      by (simp add: ids_def table_simps map_key_if)
    have slugs_t: "slugs ?t = map (\<lambda>x. if slug x = sl then tf_slug f else slug x) (rows (tasks s))"
      by (simp add: slugs_def table_simps map_key_if)
    have sl: "distinct (slugs ?t) \<longleftrightarrow> tf_slug f = sl \<or> tf_slug f \<notin> set (slugs (tasks s))"
      unfolding slugs_t
      using distinct_map_update_key[of slug "rows (tasks s)" r sl "tf_slug f"] dist r
      by (simp add: slugs_def)
    have fk': "(\<forall>x \<in> set (rows ?t). theme_id x \<in> set (ids (themes s))) \<longleftrightarrow>
               tf_theme_id f \<in> set (ids (themes s))"
    proof
      have "set_task_values f r \<in> set (rows ?t)"
        using r by (force simp: table_simps)
      moreover assume "\<forall>x \<in> set (rows ?t). theme_id x \<in> set (ids (themes s))"
      ultimately show "tf_theme_id f \<in> set (ids (themes s))" by force
    next
      assume "tf_theme_id f \<in> set (ids (themes s))"
      with fk show "\<forall>x \<in> set (rows ?t). theme_id x \<in> set (ids (themes s))"
        by (auto simp: table_simps)
    qed
    have "violation (s\<lparr>tasks := ?t\<rparr>) =
      (if tf_slug f \<noteq> sl \<and> tf_slug f \<in> set (slugs (tasks s)) then Some Task_slug_key
       else if tf_theme_id f \<notin> set (ids (themes s)) then Some Task_theme_id_fkey else None)"
      using v dist by (simp add: violation_set_tasks ids sl fk')
    then show ?thesis
      using one by (simp add: update_task_def get_task_def select_where_def
          execute_commit_def on_tasks_eq table_simps split: if_splits)
  qed
qed

text \<open>Deleting by slug never fails (no table refers to tasks) and removes
  exactly the rows with that slug.\<close>

lemma delete_task_eq:
  assumes "wf_db s"
  shows "delete_task sl s =
    (Inr status_success, s\<lparr>tasks := delete_where (\<lambda>r. slug r = sl) (tasks s)\<rparr>)"
proof -
  have v: "violation s = None" using assms by (rule wf_intros)
  then have "violation (s\<lparr>tasks := delete_where (\<lambda>r. slug r = sl) (tasks s)\<rparr>) = None"
    by (simp add: violation_set_tasks violation_None_iff ids_def slugs_def table_simps
        distinct_map_filter_keep)
  then show ?thesis
    by (simp add: delete_task_def execute_commit_def on_tasks_eq)
qed

subsection \<open>The joins\<close>

text \<open>With unique primary keys, joining along a foreign key and filtering is
  filtering by the existence of the referenced row: the join neither repeats
  nor reorders tasks.\<close>

lemma join_row_filter:
  assumes "distinct (map row_id ths)"
  shows "concat (map (\<lambda>(t, th). if P t th then [t] else [])
           (concat (map (\<lambda>th. if theme_id x = row_id th then [(x, th)] else []) ths))) =
         (if \<exists>th \<in> set ths. row_id th = theme_id x \<and> P x th then [x] else [])"
  using assms by (induction ths) (auto simp: image_iff)

lemma join_theme_filter:
  assumes "distinct (map row_id ths)"
  shows "[t. (t, th) \<leftarrow> [(t, th). t \<leftarrow> xs, th \<leftarrow> ths, theme_id t = row_id th], P t th] =
         filter (\<lambda>t. \<exists>th \<in> set ths. row_id th = theme_id t \<and> P t th) xs"
proof (induction xs)
  case Nil
  then show ?case by simp
next
  case (Cons x xs)
  then show ?case using join_row_filter[OF assms, of P x] by simp
qed

lemma join_cat_row:
  assumes "distinct (map row_id cs)"
  shows "concat (map (\<lambda>(t, th, c). if Q t c then [t] else [])
           (concat (map (\<lambda>c. if cat_id th = row_id c then [(t, th, c)] else []) cs))) =
         (if \<exists>c \<in> set cs. row_id c = cat_id th \<and> Q t c then [t] else [])"
  using assms by (induction cs) (auto simp: image_iff)

lemma join_category_filter:
  assumes "distinct (map row_id cs)"
  shows "[t. (t, th, c) \<leftarrow> [(t, th, c). (t, th) \<leftarrow> J, c \<leftarrow> cs, cat_id th = row_id c], Q t c] =
         [t. (t, th) \<leftarrow> J, \<exists>c \<in> set cs. row_id c = cat_id th \<and> Q t c]"
proof (induction J)
  case Nil
  then show ?case by simp
next
  case (Cons p J)
  obtain t th where p: "p = (t, th)" by (cases p)
  show ?case using Cons.IH join_cat_row[OF assms, of Q th t] by (simp add: p)
qed

lemma tasks_by_theme_rows:
  assumes "distinct (ids (themes s))"
  shows "[t. (t, th) \<leftarrow> join_task_theme s, slug th = ts, user_id t = uid] =
         filter (\<lambda>t. task_in_theme s ts t \<and> user_id t = uid) (rows (tasks s))"
  using join_theme_filter[where ths = "rows (themes s)" and xs = "rows (tasks s)"
      and P = "\<lambda>t th. slug th = ts \<and> user_id t = uid"]
    assms
  by (simp add: join_task_theme_def task_in_theme_def ids_def if_if_eq_conj)
    (auto intro!: filter_cong)


lemma tasks_by_category_rows:
  assumes "distinct (ids (themes s))" and "distinct (ids (categories s))"
  shows "[t. (t, th, c) \<leftarrow> join_task_theme_category s, slug c = cs, user_id t = uid] =
         filter (\<lambda>t. task_in_category s cs t \<and> user_id t = uid) (rows (tasks s))"
proof -
  have "[t. (t, th, c) \<leftarrow> join_task_theme_category s, slug c = cs, user_id t = uid] =
        [t. (t, th) \<leftarrow> join_task_theme s,
            \<exists>c \<in> set (rows (categories s)). row_id c = cat_id th \<and> slug c = cs \<and> user_id t = uid]"
    using join_category_filter[where cs = "rows (categories s)" and J = "join_task_theme s"
        and Q = "\<lambda>t c. slug c = cs \<and> user_id t = uid"] assms(2)
    by (simp add: join_task_theme_category_def ids_def if_if_eq_conj)
  also have "\<dots> = filter (\<lambda>t. task_in_category s cs t \<and> user_id t = uid) (rows (tasks s))"
    using join_theme_filter[where ths = "rows (themes s)" and xs = "rows (tasks s)"
        and P = "\<lambda>t th. \<exists>c \<in> set (rows (categories s)).
                   row_id c = cat_id th \<and> slug c = cs \<and> user_id t = uid"] assms(1)
    by (simp add: join_task_theme_def task_in_category_def ids_def) (auto intro!: filter_cong)
  finally show ?thesis .
qed

subsection \<open>Listings answer the authenticated caller only\<close>

lemma task_listings_owner:
  "get_all_tasks u s = Inr ys \<Longrightarrow> t \<in> set ys \<Longrightarrow> u = Some (user_id t)"
  "get_tasks_by_cat cs u s = Inr ys \<Longrightarrow> t \<in> set ys \<Longrightarrow> u = Some (user_id t)"
  "get_tasks_by_theme ts u s = Inr ys \<Longrightarrow> t \<in> set ys \<Longrightarrow> u = Some (user_id t)"
  by (auto simp: get_all_tasks_def get_tasks_by_cat_def get_tasks_by_theme_def
      current_active_user_def select_where_def split: option.splits)

lemma task_listings_unauthenticated [simp]:
  "get_all_tasks None s = Inl Unauthorized"
  "get_tasks_by_cat cs None s = Inl Unauthorized"
  "get_tasks_by_theme ts None s = Inl Unauthorized"
  by (simp_all add: get_all_tasks_def get_tasks_by_cat_def get_tasks_by_theme_def)

lemma get_task_SomeD:
  "get_task sl s = Some t \<Longrightarrow> t \<in> set (rows (tasks s)) \<and> slug t = sl"
  unfolding get_task_def select_where_def by (rule first_filter_SomeD)

subsection \<open>Which rows a handler can touch\<close>

text \<open>Creating appends, and updating or deleting by a slug touches only the
  rows with that slug; a failing statement touches nothing.\<close>

lemma task_rows_kept_add:
  "t \<in> set (rows (tasks s)) \<Longrightarrow> t \<in> set (rows (tasks (snd (add_new_task f s))))"
  using execute_commit_state[of "\<lambda>s. apfst first (on_tasks (insert_returning (\<lambda>i. task_of_form i f)) s)" s]
  by (auto simp: add_new_task_def table_simps)

lemma task_rows_kept_update:
  "t \<in> set (rows (tasks s)) \<Longrightarrow> slug t \<noteq> sl \<Longrightarrow>
   t \<in> set (rows (tasks (snd (update_task sl f s))))"
  using execute_commit_state[of "\<lambda>s. apfst first
       (on_tasks (update_returning (\<lambda>t. slug t = sl) (set_task_values f)) s)" s]
  by (auto simp: update_task_def table_simps image_iff)

lemma task_rows_kept_delete:
  "t \<in> set (rows (tasks s)) \<Longrightarrow> slug t \<noteq> sl \<Longrightarrow>
   t \<in> set (rows (tasks (snd (delete_task sl s))))"
  using execute_commit_state[of "\<lambda>s. (status_success,
       snd (on_tasks (\<lambda>t. ((), delete_where (\<lambda>r. slug r = sl) t)) s))" s]
  by (auto simp: delete_task_def table_simps)

subsection \<open>Every handler keeps the store well formed\<close>

lemma add_new_task_wf [wf_intros]:
  assumes "wf_db s"
  shows "wf_db (snd (add_new_task f s))"
  using execute_commit_wf[OF assms, where r = "fst (add_new_task f s)"]
  by (simp add: add_new_task_def assms wf_intros)

lemma update_task_wf [wf_intros]:
  assumes "wf_db s"
  shows "wf_db (snd (update_task sl f s))"
  using execute_commit_wf[OF assms, where r = "fst (update_task sl f s)"]
  by (simp add: update_task_def assms wf_intros)

lemma delete_task_wf [wf_intros]:
  assumes "wf_db s"
  shows "wf_db (snd (delete_task sl s))"
  using execute_commit_wf[OF assms, where r = "fst (delete_task sl s)"]
  by (simp add: delete_task_def assms wf_intros)

end
