(* ===== verification/CategoryRouter.thy ===== *)
theory CategoryRouter
  imports Store
begin

text \<open>
  The five handlers of \<open>src/todo_app/routers/category.py\<close>, in the order
  the file declares them, built like those of the task router. Categories
  are referred to by themes, so deleting a category can violate the foreign
  key \<open>theme.cat_id\<close>; the router does not check it, the store does.
\<close>

subsection \<open>Handlers\<close>

text \<open>\<open>add_new_category\<close> (lines 17--23).\<close>

definition add_new_category ::
  "category_form \<Rightarrow> db \<Rightarrow> (error + category option) \<times> db" where
  "add_new_category f =
     execute_commit (\<lambda>s. apfst first
       (on_categories (insert_returning (\<lambda>i. category_of_form i f)) s))"

text \<open>\<open>get_all_categories\<close> (lines 26--29): no \<open>order_by\<close>, so rows come
  in scan order.\<close>

definition get_all_categories :: "user_id option \<Rightarrow> db \<Rightarrow> error + category list" where
  "get_all_categories u s =
     (case current_active_user u of
        Inl e \<Rightarrow> Inl e
      | Inr uid \<Rightarrow> Inr (select_where (\<lambda>c. user_id c = uid) (categories s)))"

text \<open>\<open>get_category\<close> (lines 32--35).\<close>

definition get_category :: "slug \<Rightarrow> db \<Rightarrow> category option" where
  "get_category cat_slug s = first (select_where (\<lambda>c. slug c = cat_slug) (categories s))"

text \<open>\<open>update_category\<close> (lines 38--44).\<close>

definition update_category ::
  "slug \<Rightarrow> category_form \<Rightarrow> db \<Rightarrow> (error + category option) \<times> db" where
  "update_category cat_slug f =
     execute_commit (\<lambda>s. apfst first
       (on_categories (update_returning (\<lambda>c. slug c = cat_slug) (set_category_values f)) s))"

text \<open>\<open>delete_category\<close> (lines 47--52).\<close>

definition delete_category ::
  "slug \<Rightarrow> db \<Rightarrow> (error + (string \<times> string) list) \<times> db" where
  "delete_category cat_slug =
     execute_commit (\<lambda>s. (status_success,
       snd (on_categories (\<lambda>t. ((), delete_where (\<lambda>c. slug c = cat_slug) t)) s)))"

subsection \<open>Specification-level notions\<close>

definition new_category :: "category_form \<Rightarrow> db \<Rightarrow> category" where
  "new_category f s = category_of_form (Suc (seq (categories s))) f"

text \<open>A category some theme refers to.\<close>

definition category_referenced :: "db \<Rightarrow> slug \<Rightarrow> bool" where
  "category_referenced s cs \<longleftrightarrow>
     (\<exists>c \<in> set (rows (categories s)). slug c = cs \<and>
        (\<exists>th \<in> set (rows (themes s)). cat_id th = row_id c))"

subsection \<open>Creating, updating and deleting, branch by branch\<close>

text \<open>Creating a category fails exactly when its slug is taken: no foreign
  key leaves the category table.\<close>

lemma add_new_category_eq:
  assumes "wf_db s"
  shows "add_new_category f s =
    (if cf_slug f \<in> set (slugs (categories s))
       then (Inl (IntegrityError Category_slug_key), s)
     else (Inr (Some (new_category f s)),
           s\<lparr>categories := snd (insert_returning (\<lambda>i. category_of_form i f) (categories s))\<rparr>))"
proof -
  let ?t = "snd (insert_returning (\<lambda>i. category_of_form i f) (categories s))"
  have ids: "ids ?t = ids (categories s) @ [Suc (seq (categories s))]"
    and sl: "slugs ?t = slugs (categories s) @ [cf_slug f]"
    by (simp_all add: ids_def slugs_def table_simps)
  have fresh: "Suc (seq (categories s)) \<notin> set (ids (categories s))"
    using assms by (simp add: seq_ok_fresh wf_intros)
  have v: "violation s = None" using assms by (rule wf_intros)
  then have "violation (s\<lparr>categories := ?t\<rparr>) =
    (if cf_slug f \<in> set (slugs (categories s)) then Some Category_slug_key else None)"
    using fresh violation_None_iff[of s]
    by (simp add: violation_set_categories ids sl)
  then show ?thesis
    by (simp add: add_new_category_def execute_commit_def on_categories_eq new_category_def
        table_simps split: if_splits)
qed

text \<open>Updating a category by slug: \<open>None\<close> and no change when no category
  has the slug, a unique violation when the new slug is another category's,
  the updated row otherwise. The key is kept, so themes still refer to it.\<close>

lemma update_category_eq:
  assumes "wf_db s"
  shows "update_category sl f s =
   (case get_category sl s of
      None \<Rightarrow> (Inr None, s)
    | Some r \<Rightarrow>
        if cf_slug f \<noteq> sl \<and> cf_slug f \<in> set (slugs (categories s))
          then (Inl (IntegrityError Category_slug_key), s)
        else (Inr (Some (set_category_values f r)),
              s\<lparr>categories := snd (update_returning (\<lambda>c. slug c = sl) (set_category_values f)
                                    (categories s))\<rparr>))"
proof -
  have v: "violation s = None" using assms by (rule wf_intros)
  then have dist: "distinct (slugs (categories s))" "distinct (ids (categories s))"
    and fk: "\<forall>th \<in> set (rows (themes s)). cat_id th \<in> set (ids (categories s))"
    by (simp_all add: violation_None_iff)
  show ?thesis
  proof (cases "sl \<in> set (slugs (categories s))")
    case False
    then have "filter (\<lambda>c. slug c = sl) (rows (categories s)) = []"
      by (simp add: slugs_def filter_key_absent)
    with v show ?thesis
      by (simp add: update_category_def get_category_def select_where_def execute_commit_def
          on_categories_eq update_returning_no_match)
  next
    case True
    then obtain r where r: "r \<in> set (rows (categories s))" "slug r = sl"
      by (auto simp: slugs_def)
    have one: "filter (\<lambda>c. slug c = sl) (rows (categories s)) = [r]"
      using dist r by (intro filter_distinct_key_single) (simp_all add: slugs_def)
    let ?t = "snd (update_returning (\<lambda>c. slug c = sl) (set_category_values f) (categories s))"
    have ids: "ids ?t = ids (categories s)"
      by (simp add: ids_def table_simps map_key_if)
    have slugs_t:
      "slugs ?t = map (\<lambda>x. if slug x = sl then cf_slug f else slug x) (rows (categories s))"
      by (simp add: slugs_def table_simps map_key_if)
    have sl: "distinct (slugs ?t) \<longleftrightarrow> cf_slug f = sl \<or> cf_slug f \<notin> set (slugs (categories s))"
      unfolding slugs_t
      using distinct_map_update_key[of slug "rows (categories s)" r sl "cf_slug f"] dist r
      by (simp add: slugs_def)
    have "violation (s\<lparr>categories := ?t\<rparr>) =
      (if cf_slug f \<noteq> sl \<and> cf_slug f \<in> set (slugs (categories s))
         then Some Category_slug_key else None)"
      using v dist fk by (simp add: violation_set_categories ids sl)
    then show ?thesis
      using one by (simp add: update_category_def get_category_def select_where_def
          execute_commit_def on_categories_eq table_simps split: if_splits)
  qed
qed

text \<open>Deleting a category by slug succeeds, removing the rows with that slug,
  unless a theme refers to such a row: then the foreign key of the theme
  table fails and nothing is deleted.\<close>

lemma delete_category_eq:
  assumes "wf_db s"
  shows "delete_category sl s =
    (if category_referenced s sl then (Inl (IntegrityError Theme_cat_id_fkey), s)
     else (Inr status_success,
           s\<lparr>categories := delete_where (\<lambda>c. slug c = sl) (categories s)\<rparr>))"
proof -
  let ?t = "delete_where (\<lambda>c. slug c = sl) (categories s)"
  have v: "violation s = None" using assms by (rule wf_intros)
  then have dist: "distinct (ids (categories s))"
    and fk: "\<forall>th \<in> set (rows (themes s)). cat_id th \<in> set (ids (categories s))"
    by (simp_all add: violation_None_iff)
  have fk': "(\<forall>th \<in> set (rows (themes s)). cat_id th \<in> set (ids ?t)) \<longleftrightarrow>
             \<not> category_referenced s sl"
    using fk dist
    by (auto simp: ids_def table_simps category_referenced_def distinct_map inj_on_def
        image_iff) metis+
  have "distinct (ids ?t)" and "distinct (slugs ?t)"
    using v violation_None_iff[of s]
    by (simp_all add: ids_def slugs_def table_simps distinct_map_filter_keep)
  with v have "violation (s\<lparr>categories := ?t\<rparr>) =
    (if category_referenced s sl then Some Theme_cat_id_fkey else None)"
    by (simp add: violation_set_categories fk')
  then show ?thesis
    by (simp add: delete_category_def execute_commit_def on_categories_eq split: if_splits)
qed

subsection \<open>The listing answers the authenticated caller only\<close>

lemma get_all_categories_owner:
  "get_all_categories u s = Inr cs \<Longrightarrow> c \<in> set cs \<Longrightarrow> u = Some (user_id c)"
  by (auto simp: get_all_categories_def current_active_user_def select_where_def
      split: option.splits)

lemma get_all_categories_unauthenticated [simp]:
  "get_all_categories None s = Inl Unauthorized"
  by (simp add: get_all_categories_def)

lemma get_category_SomeD:
  "get_category sl s = Some c \<Longrightarrow> c \<in> set (rows (categories s)) \<and> slug c = sl"
  unfolding get_category_def select_where_def by (rule first_filter_SomeD)

lemma get_category_None:
  "get_category sl s = None \<longleftrightarrow> sl \<notin> set (slugs (categories s))"
  by (auto simp: get_category_def select_where_def slugs_def filter_empty_conv)

subsection \<open>The category handlers leave the task table alone\<close>

lemma category_handlers_tasks [simp]:
  "tasks (snd (add_new_category f s)) = tasks s"
  "tasks (snd (update_category sl f s)) = tasks s"
  "tasks (snd (delete_category sl s)) = tasks s"
proof -
  show "tasks (snd (add_new_category f s)) = tasks s"
    using execute_commit_state[of "\<lambda>s. apfst first
       (on_categories (insert_returning (\<lambda>i. category_of_form i f)) s)" s]
    by (auto simp: add_new_category_def)
  show "tasks (snd (update_category sl f s)) = tasks s"
    using execute_commit_state[of "\<lambda>s. apfst first
       (on_categories (update_returning (\<lambda>c. slug c = sl) (set_category_values f)) s)" s]
    by (auto simp: update_category_def)
  show "tasks (snd (delete_category sl s)) = tasks s"
    using execute_commit_state[of "\<lambda>s. (status_success,
       snd (on_categories (\<lambda>t. ((), delete_where (\<lambda>c. slug c = sl) t)) s))" s]
    by (auto simp: delete_category_def)
qed

subsection \<open>Every handler keeps the store well formed\<close>

lemma add_new_category_wf [wf_intros]:
  assumes "wf_db s"
  shows "wf_db (snd (add_new_category f s))"
  using execute_commit_wf[OF assms, where r = "fst (add_new_category f s)"]
  by (simp add: add_new_category_def assms wf_intros)

lemma update_category_wf [wf_intros]:
  assumes "wf_db s"
  shows "wf_db (snd (update_category sl f s))"
  using execute_commit_wf[OF assms, where r = "fst (update_category sl f s)"]
  by (simp add: update_category_def assms wf_intros)

lemma delete_category_wf [wf_intros]:
  assumes "wf_db s"
  shows "wf_db (snd (delete_category sl s))"
  using execute_commit_wf[OF assms, where r = "fst (delete_category sl s)"]
  by (simp add: delete_category_def assms wf_intros)

end
