(* ===== verification/Routing.thy ===== *)
theory Routing
  imports TaskRouter CategoryRouter
begin

text \<open>
  How a request reaches a handler. Each router declares its routes with a
  prefix (\<open>APIRouter(prefix='/API/task')\<close>, \<open>prefix='/API/category'\<close>) and a
  decorator per handler (\<open>@router.get('/{task_slug}')\<close>, ...), in file order.
  The framework (FastAPI on Starlette, not under review and modelled from
  its documented behaviour) compiles each path template into a pattern in
  which a parameter \<open>{name}\<close> matches a non-empty run of characters other
  than \<open>/\<close>; it tries the routes in order, takes the first whose path and
  method match, answers 405 when only the path of some route matched, and
  otherwise 404, or a redirect when the path with its trailing slash toggled
  would match. The handler's path parameters are looked up by name;
  dependencies (\<open>current_active_user\<close>, the form decoders) run before it.
  Starlette's \<open>url_path_for\<close> (filling a template) and the response kind each
  route declares are defined here too, for the round trip and the response
  lemmas at the end.
\<close>

datatype http_method = GET | POST | PUT | DELETE

datatype piece = Lit string | Param string

text \<open>Starlette's \<open>compile_path\<close>: literal text and \<open>{name}\<close> parameters
  (the first argument collects the literal text read so far).\<close>

function compile_path :: "string \<Rightarrow> string \<Rightarrow> piece list" where
  "compile_path acc [] = (if acc = [] then [] else [Lit acc])"
| "compile_path acc (c # cs) =
     (if c = CHR ''{''
      then (let name = takeWhile (\<lambda>d. d \<noteq> CHR ''}'') cs
            in (if acc = [] then [] else [Lit acc]) @
               Param name # compile_path [] (drop (Suc (length name)) cs))
      else compile_path (acc @ [c]) cs)"
  by pat_completeness auto
termination
  by (relation "measure (\<lambda>(acc, s). length s)") auto

text \<open>Matching a decoded request path against a compiled template; the
  result is the path parameters by name.\<close>

fun match_pieces :: "piece list \<Rightarrow> string \<Rightarrow> (string \<times> string) list option" where
  "match_pieces [] p = (if p = [] then Some [] else None)"
| "match_pieces (Lit l # ps) p =
     (if take (length l) p = l then match_pieces ps (drop (length l) p) else None)"
| "match_pieces (Param n # ps) p =
     (let v = takeWhile (\<lambda>c. c \<noteq> CHR ''/'') p
      in if v = [] then None
         else map_option (Cons (n, v)) (match_pieces ps (drop (length v) p)))"

datatype endpoint =
    AddNewCategory | GetAllCategories | GetCategory | UpdateCategory | DeleteCategory
  | AddNewTask | GetAllTasks | GetTasksByCat | GetTasksByTheme | GetTask | UpdateTask
  | DeleteTask

record route =
  route_method :: http_method
  route_path :: string
  route_endpoint :: endpoint

definition mk_route :: "string \<Rightarrow> http_method \<Rightarrow> string \<Rightarrow> endpoint \<Rightarrow> route" where
  "mk_route prefix m p e = \<lparr>route_method = m, route_path = prefix @ p, route_endpoint = e\<rparr>"

text \<open>The routes of \<open>category.py\<close> (lines 11--14, 17, 26, 32, 38, 47) and of
  \<open>task.py\<close> (lines 12--15, 18, 27, 33, 46, 58, 64, 73), in declaration order.\<close>

definition category_routes :: "route list" where
  "category_routes =
     [mk_route ''/API/category'' POST ''/create'' AddNewCategory,
      mk_route ''/API/category'' GET ''/'' GetAllCategories,
      mk_route ''/API/category'' GET ''/{cat_slug}'' GetCategory,
      mk_route ''/API/category'' PUT ''/{cat_slug}/update'' UpdateCategory,
      mk_route ''/API/category'' DELETE ''/{cat_slug}/delete'' DeleteCategory]"

definition task_routes :: "route list" where
  "task_routes =
     [mk_route ''/API/task'' POST ''/create'' AddNewTask,
      mk_route ''/API/task'' GET ''/'' GetAllTasks,
      mk_route ''/API/task'' GET ''/cat/{cat_slug}'' GetTasksByCat,
      mk_route ''/API/task'' GET ''/theme/{theme_slug}'' GetTasksByTheme,
      mk_route ''/API/task'' GET ''/{task_slug}'' GetTask,
      mk_route ''/API/task'' PUT ''/{task_slug}/update'' UpdateTask,
      mk_route ''/API/task'' DELETE ''/{task_slug}/delete'' DeleteTask]"

text \<open>The application includes both routers (its entry point is not under
  review; the order does not matter, as the prefixes are disjoint).\<close>

definition app_routes :: "route list" where
  "app_routes = category_routes @ task_routes"

datatype lookup = Found endpoint "(string \<times> string) list" | MethodNotAllowed | NotFound

text \<open>The router's loop: a route matches when its compiled template matches
  the path; the first route that matches with the request's method wins; a
  route that matches the path only is remembered and answers 405 when no
  full match follows.\<close>

fun router_lookup :: "route list \<Rightarrow> http_method \<Rightarrow> string \<Rightarrow> lookup" where
  "router_lookup [] m p = NotFound"
| "router_lookup (r # rs) m p =
     (case match_pieces (compile_path [] (route_path r)) p of
        None \<Rightarrow> router_lookup rs m p
      | Some ps \<Rightarrow>
          if route_method r = m then Found (route_endpoint r) ps
          else (case router_lookup rs m p of Found e ps' \<Rightarrow> Found e ps' | _ \<Rightarrow> MethodNotAllowed))"

subsection \<open>Requests, responses, dispatch\<close>

text \<open>A request as the handlers see it: method, decoded path, the caller the
  authentication backend resolved (if any) and the decoded form body.\<close>

datatype body = NoBody | CategoryBody category_form | TaskBody task_form

record request =
  req_method :: http_method
  req_path :: string
  req_user :: "user_id option"
  req_body :: body

datatype response =
    CategoryResp "category option" | CategoryList "category list"
  | TaskResp "task option" | TaskList "task list"
  | StatusResp "(string \<times> string) list"
  | ErrorResp error
  | Http404 | Http405 | Http307 string | Http422 | Http500

definition respond :: "('a \<Rightarrow> response) \<Rightarrow> (error + 'a) \<times> db \<Rightarrow> response \<times> db" where
  "respond k r = (case fst r of Inl e \<Rightarrow> ErrorResp e | Inr a \<Rightarrow> k a, snd r)"

definition reply :: "('a \<Rightarrow> response) \<Rightarrow> error + 'a \<Rightarrow> response" where
  "reply k r = (case r of Inl e \<Rightarrow> ErrorResp e | Inr a \<Rightarrow> k a)"

text \<open>The \<open>response_model\<close> of \<open>get_task\<close> (\<open>TaskRead\<close>, task.py line 58) and
  of \<open>get_category\<close> (\<open>CategoryRead\<close>, category.py line 32): FastAPI
  validates the handler's return value against the model before sending it.
  The model is not \<open>Optional\<close>, so the \<open>None\<close> of \<open>first()\<close> fails the
  validation and the request ends in a server error (\<open>ResponseValidationError\<close>).\<close>

definition task_read :: "task option \<Rightarrow> response" where
  "task_read r = (case r of Some t \<Rightarrow> TaskResp (Some t) | None \<Rightarrow> Http500)"

definition category_read :: "category option \<Rightarrow> response" where
  "category_read r = (case r of Some c \<Rightarrow> CategoryResp (Some c) | None \<Rightarrow> Http500)"

text \<open>Binding a matched route to its handler: path parameters by the
  handler's parameter names, forms from the body (a missing one is the
  decoder's 422).\<close>

fun handle :: "endpoint \<Rightarrow> (string \<times> string) list \<Rightarrow> request \<Rightarrow> db \<Rightarrow> response \<times> db" where
  "handle AddNewCategory ps r s =
     (case req_body r of CategoryBody f \<Rightarrow> respond CategoryResp (add_new_category f s)
      | _ \<Rightarrow> (Http422, s))"
| "handle GetAllCategories ps r s = (reply CategoryList (get_all_categories (req_user r) s), s)"
| "handle GetCategory ps r s =
     (case map_of ps ''cat_slug'' of Some v \<Rightarrow> (category_read (get_category v s), s)
      | None \<Rightarrow> (Http422, s))"
| "handle UpdateCategory ps r s =
     (case (map_of ps ''cat_slug'', req_body r) of
        (Some v, CategoryBody f) \<Rightarrow> respond CategoryResp (update_category v f s)
      | _ \<Rightarrow> (Http422, s))"
| "handle DeleteCategory ps r s =
     (case map_of ps ''cat_slug'' of Some v \<Rightarrow> respond StatusResp (delete_category v s)
      | None \<Rightarrow> (Http422, s))"
| "handle AddNewTask ps r s =
     (case req_body r of TaskBody f \<Rightarrow> respond TaskResp (add_new_task f s)
      | _ \<Rightarrow> (Http422, s))"
| "handle GetAllTasks ps r s = (reply TaskList (get_all_tasks (req_user r) s), s)"
| "handle GetTasksByCat ps r s =
     (case map_of ps ''cat_slug'' of
        Some v \<Rightarrow> (reply TaskList (get_tasks_by_cat v (req_user r) s), s)
      | None \<Rightarrow> (Http422, s))"
| "handle GetTasksByTheme ps r s =
     (case map_of ps ''theme_slug'' of
        Some v \<Rightarrow> (reply TaskList (get_tasks_by_theme v (req_user r) s), s)
      | None \<Rightarrow> (Http422, s))"
| "handle GetTask ps r s =
     (case map_of ps ''task_slug'' of Some v \<Rightarrow> (task_read (get_task v s), s)
      | None \<Rightarrow> (Http422, s))"
| "handle UpdateTask ps r s =
     (case (map_of ps ''task_slug'', req_body r) of
        (Some v, TaskBody f) \<Rightarrow> respond TaskResp (update_task v f s)
      | _ \<Rightarrow> (Http422, s))"
| "handle DeleteTask ps r s =
     (case map_of ps ''task_slug'' of Some v \<Rightarrow> respond StatusResp (delete_task v s)
      | None \<Rightarrow> (Http422, s))"

text \<open>The application: route lookup, then 405, or (\<open>redirect_slashes\<close>) a
  307 to the path with its trailing slash toggled when some route matches
  that path, or 404. As in Starlette, a path ending in \<open>/\<close> loses all its
  trailing slashes (\<open>rstrip('/')\<close>), any other path gains one.\<close>

definition dispatch :: "request \<Rightarrow> db \<Rightarrow> response \<times> db" where
  "dispatch r s =
     (case router_lookup app_routes (req_method r) (req_path r) of
        Found e ps \<Rightarrow> handle e ps r s
      | MethodNotAllowed \<Rightarrow> (Http405, s)
      | NotFound \<Rightarrow>
          (let p = req_path r;
               p' = (if p \<noteq> [] \<and> last p = CHR ''/''
                     then rev (dropWhile (\<lambda>c. c = CHR ''/'') (rev p)) else p @ ''/'')
           in if p \<noteq> ''/'' \<and> (\<exists>rt \<in> set app_routes. match_pieces (compile_path [] (route_path rt)) p' \<noteq> None)
              then (Http307 p', s) else (Http404, s)))"

text \<open>A run of the service: requests handled one after another, each on the
  store the previous one left.\<close>

fun serve :: "request list \<Rightarrow> db \<Rightarrow> response list \<times> db" where
  "serve [] s = ([], s)"
| "serve (r # rs) s =
     (case dispatch r s of (a, s') \<Rightarrow> (case serve rs s' of (as, s'') \<Rightarrow> (a # as, s'')))"

text \<open>The stores reachable through the API from an initial store (themes are
  created outside the API, so the initial store is a parameter).\<close>

inductive api_reachable :: "db \<Rightarrow> db \<Rightarrow> bool" for s0 where
  init: "api_reachable s0 s0"
| step: "api_reachable s0 s \<Longrightarrow> dispatch r s = (a, s') \<Longrightarrow> api_reachable s0 s'"


subsection \<open>Path parameters\<close>

text \<open>What a path parameter can be: a non-empty run of characters other than
  \<open>/\<close> (the \<open>str\<close> convertor's pattern \<open>[^/]+\<close>).\<close>

definition valid_segment :: "string \<Rightarrow> bool" where
  "valid_segment v \<longleftrightarrow> v \<noteq> [] \<and> CHR ''/'' \<notin> set v"

fun param_names :: "piece list \<Rightarrow> string list" where
  "param_names [] = []"
| "param_names (Lit l # ps) = param_names ps"
| "param_names (Param n # ps) = n # param_names ps"

text \<open>The path parameters each route function declares
  (\<open>cat_slug: str\<close>, \<open>theme_slug: str\<close>, \<open>task_slug: str\<close>).\<close>

fun endpoint_params :: "endpoint \<Rightarrow> string list" where
  "endpoint_params GetCategory = [''cat_slug'']"
| "endpoint_params UpdateCategory = [''cat_slug'']"
| "endpoint_params DeleteCategory = [''cat_slug'']"
| "endpoint_params GetTasksByCat = [''cat_slug'']"
| "endpoint_params GetTasksByTheme = [''theme_slug'']"
| "endpoint_params GetTask = [''task_slug'']"
| "endpoint_params UpdateTask = [''task_slug'']"
| "endpoint_params DeleteTask = [''task_slug'']"
| "endpoint_params _ = []"

text \<open>Starlette's \<open>url_path_for\<close>: a route's template with its parameters
  replaced by values (the inverse of matching).\<close>

fun fill_path :: "piece list \<Rightarrow> (string \<Rightarrow> string) \<Rightarrow> string" where
  "fill_path [] \<sigma> = []"
| "fill_path (Lit l # ps) \<sigma> = l @ fill_path ps \<sigma>"
| "fill_path (Param n # ps) \<sigma> = \<sigma> n @ fill_path ps \<sigma>"

definition url_path_for :: "route \<Rightarrow> (string \<Rightarrow> string) \<Rightarrow> string" where
  "url_path_for rt \<sigma> = fill_path (compile_path [] (route_path rt)) \<sigma>"

subsection \<open>Dispatch keeps the store well formed and fails atomically\<close>

lemma read_model_simps [simp]:
  "task_read (Some t) = TaskResp (Some t)" "task_read None = Http500"
  "category_read (Some c) = CategoryResp (Some c)" "category_read None = Http500"
  by (simp_all add: task_read_def category_read_def)

lemmas handler_defs = add_new_category_def update_category_def delete_category_def
  add_new_task_def update_task_def delete_task_def

lemma handlers_Inl_unchanged:
  "fst (add_new_category cf s) = Inl e \<Longrightarrow> snd (add_new_category cf s) = s"
  "fst (update_category sl cf s) = Inl e \<Longrightarrow> snd (update_category sl cf s) = s"
  "fst (delete_category sl s) = Inl e \<Longrightarrow> snd (delete_category sl s) = s"
  "fst (add_new_task tf s) = Inl e \<Longrightarrow> snd (add_new_task tf s) = s"
  "fst (update_task sl tf s) = Inl e \<Longrightarrow> snd (update_task sl tf s) = s"
  "fst (delete_task sl s) = Inl e \<Longrightarrow> snd (delete_task sl s) = s"
  unfolding handler_defs by (simp_all add: execute_commit_Inl)

lemma respond_ErrorResp:
  assumes "respond k x = (ErrorResp e, s')" and "\<And>a. k a \<noteq> ErrorResp e"
  shows "fst x = Inl e" and "s' = snd x"
  using assms by (auto simp: respond_def split: sum.splits)

lemma handle_wf [wf_intros]: "wf_db s \<Longrightarrow> wf_db (snd (handle e ps r s))"
  by (cases e) (simp_all add: respond_def wf_intros split: body.splits option.splits prod.splits)

lemma dispatch_wf [wf_intros]: "wf_db s \<Longrightarrow> wf_db (snd (dispatch r s))"
  by (simp add: dispatch_def Let_def wf_intros split: lookup.splits)

lemma handle_ErrorResp:
  assumes "handle ep ps r s = (ErrorResp e, s')"
  shows "s' = s"
  using assms
  by (cases ep)
    (auto simp: respond_def handlers_Inl_unchanged
      split: body.splits option.splits prod.splits sum.splits)


text \<open>No handler writes the theme table: the statements are on the task and
  category tables only, and a rolled-back statement writes nothing.\<close>

lemma execute_commit_themes:
  "(\<And>s. themes (snd (stmt s)) = themes s) \<Longrightarrow> themes (snd (execute_commit stmt s)) = themes s"
  using execute_commit_state[of stmt s] by auto

lemma handle_themes: "themes (snd (handle e ps r s)) = themes s"
  by (cases e) (simp_all add: respond_def handler_defs execute_commit_themes
      split: body.splits option.splits prod.splits)

lemma dispatch_themes: "themes (snd (dispatch r s)) = themes s"
  by (simp add: dispatch_def Let_def handle_themes split: lookup.splits)

subsection \<open>What a found route tells\<close>

lemma router_lookup_Found:
  "router_lookup rs m p = Found e ps \<Longrightarrow>
   \<exists>rt \<in> set rs. route_method rt = m \<and> route_endpoint rt = e \<and>
     match_pieces (compile_path [] (route_path rt)) p = Some ps"
proof (induction rs)
  case Nil
  then show ?case by simp
next
  case (Cons rt rs)
  then show ?case
    by (auto split: option.splits if_splits lookup.splits)
qed

lemma app_routes_methods:
  "rt \<in> set app_routes \<Longrightarrow> route_method rt = GET \<Longrightarrow>
   route_endpoint rt \<in> {GetAllCategories, GetCategory, GetAllTasks, GetTasksByCat,
     GetTasksByTheme, GetTask}"
  by (auto simp: app_routes_def category_routes_def task_routes_def mk_route_def)

lemma handle_reads_unchanged:
  "ep \<in> {GetAllCategories, GetCategory, GetAllTasks, GetTasksByCat, GetTasksByTheme, GetTask}
   \<Longrightarrow> snd (handle ep ps r s) = s"
  by (auto split: option.splits)


subsection \<open>Matching paths with slash-free parameters\<close>

lemma take_slash_free:
  "CHR ''/'' \<in> set xs \<Longrightarrow> CHR ''/'' \<notin> set v \<Longrightarrow> (take n v = xs) = False"
  by (auto dest: in_set_takeD)

lemma takeWhile_slash_free:
  "CHR ''/'' \<notin> set v \<Longrightarrow> takeWhile (\<lambda>c. c \<noteq> CHR ''/'') v = v"
  by (auto simp: takeWhile_eq_all_conv)

lemma takeWhile_slash_free_append:
  "CHR ''/'' \<notin> set v \<Longrightarrow> takeWhile (\<lambda>c. c \<noteq> CHR ''/'') (v @ CHR ''/'' # w) = v"
  by (induction v) auto

lemmas route_eval = app_routes_def category_routes_def task_routes_def mk_route_def
  take_slash_free takeWhile_slash_free takeWhile_slash_free_append Let_def

lemma match_pieces_valid:
  "match_pieces ps p = Some vs \<Longrightarrow> (n, v) \<in> set vs \<Longrightarrow> valid_segment v"
proof (induction ps p arbitrary: vs rule: match_pieces.induct)
  case (3 m ps p)
  let ?v = "takeWhile (\<lambda>c. c \<noteq> CHR ''/'') p"
  from "3.prems"(1) obtain z where ne: "?v \<noteq> []"
    and rec: "match_pieces ps (drop (length ?v) p) = Some z" and vs: "vs = (m, ?v) # z"
    by (auto simp: Let_def split: if_splits)
  show ?case
  proof (cases "(n, v) = (m, ?v)")
    case True
    with ne show ?thesis by (auto simp: valid_segment_def dest: set_takeWhileD)
  next
    case False
    with "3.prems"(2) vs have "(n, v) \<in> set z" by auto
    with "3.IH"[OF refl] ne rec show ?thesis by simp
  qed
qed (auto split: if_splits)

lemma match_pieces_names:
  "match_pieces ps p = Some vs \<Longrightarrow> map fst vs = param_names ps"
  by (induction ps p arbitrary: vs rule: match_pieces.induct) (auto simp: Let_def split: if_splits)

lemma found_valid:
  assumes "router_lookup rs m p = Found e ps" and "map_of ps n = Some v"
  shows "valid_segment v"
proof -
  obtain rt :: route where "match_pieces (compile_path [] (route_path rt)) p = Some ps"
    using router_lookup_Found[OF assms(1)] by auto
  moreover have "(n, v) \<in> set ps" using assms(2) by (rule map_of_SomeD)
  ultimately show ?thesis by (rule match_pieces_valid)
qed

lemma app_routes_params:
  "rt \<in> set app_routes \<Longrightarrow>
   param_names (compile_path [] (route_path rt)) = endpoint_params (route_endpoint rt)"
  unfolding app_routes_def category_routes_def task_routes_def mk_route_def
  by (simp only: set_simps insert_iff empty_iff append.simps) (elim disjE; simp)

lemma found_params:
  assumes "router_lookup app_routes m p = Found e ps"
  shows "map fst ps = endpoint_params e"
proof -
  obtain rt where rt: "rt \<in> set app_routes" "route_endpoint rt = e"
    and m: "match_pieces (compile_path [] (route_path rt)) p = Some ps"
    using router_lookup_Found[OF assms] by blast
  from m have "map fst ps = param_names (compile_path [] (route_path rt))"
    by (rule match_pieces_names)
  with rt show ?thesis by (simp add: app_routes_params)
qed

lemma found_param_present:
  assumes "router_lookup app_routes m p = Found e ps" and "n \<in> set (endpoint_params e)"
  shows "\<exists>v. map_of ps n = Some v"
proof -
  from assms have "n \<in> fst ` set ps" by (simp flip: found_params[OF assms(1)])
  then show ?thesis by (cases "map_of ps n") (auto simp: map_of_eq_None_iff)
qed


subsection \<open>Evaluating the route loop\<close>

text \<open>The route loop with the method compared first: a route whose method
  differs only matters when no later route matches fully, so its template
  need not be matched when one does. Evaluating with this equation instead of
  the defining one avoids matching every template against the path.\<close>

lemma router_lookup_method_first:
  "router_lookup (r # rs) m p =
     (if route_method r = m
      then (case match_pieces (compile_path [] (route_path r)) p of
              None \<Rightarrow> router_lookup rs m p
            | Some ps \<Rightarrow> Found (route_endpoint r) ps)
      else (case router_lookup rs m p of
              Found e ps \<Rightarrow> Found e ps
            | _ \<Rightarrow> (case match_pieces (compile_path [] (route_path r)) p of
                    None \<Rightarrow> router_lookup rs m p
                  | Some _ \<Rightarrow> MethodNotAllowed)))"
  by (simp split: option.split lookup.split)

text \<open>The three routes of a task slug, for any valid slug.\<close>

lemma task_slug_lookups:
  assumes "valid_segment v"
  shows "router_lookup app_routes GET (''/API/task/'' @ v) = Found GetTask [(''task_slug'', v)]"
    and "router_lookup app_routes PUT (''/API/task/'' @ v @ ''/update'') =
           Found UpdateTask [(''task_slug'', v)]"
    and "router_lookup app_routes DELETE (''/API/task/'' @ v @ ''/delete'') =
           Found DeleteTask [(''task_slug'', v)]"
  using assms
  by (simp_all add: valid_segment_def route_eval router_lookup_method_first
      del: router_lookup.simps(2))

lemma category_slug_lookup:
  "valid_segment v \<Longrightarrow>
   router_lookup app_routes GET (''/API/category/'' @ v) = Found GetCategory [(''cat_slug'', v)]"
  by (simp add: valid_segment_def route_eval router_lookup_method_first del: router_lookup.simps(2))

end
