(* ===== verification/Service.thy ===== *)
theory Service
  imports Routing
begin

text \<open>
  The service as a system of requests. A request runs its handler in a session
  on the shared store (\<open>get_async_session\<close>); the connection to the store can
  fail at any point, which the routers do not catch (section 7(e) of the
  specification): the client gets a server error. The failure either comes
  before the commit, and the store is as it was, or after the commit reached
  the store, and the client is not told that the request took effect.
  Requests are served one after another (\<^const>\<open>serve\<close>). The lemmas
  here are what the retry and liveness claims of the root theory use.
\<close>

subsection \<open>A request with a failing store connection\<close>

text \<open>Only a routed request opens a session, so only it can lose the store.\<close>

inductive exec :: "request \<Rightarrow> db \<Rightarrow> response \<Rightarrow> db \<Rightarrow> bool" where
  served: "dispatch r s = (a, s') \<Longrightarrow> exec r s a s'"
| lost_before_commit:
    "router_lookup app_routes (req_method r) (req_path r) = Found e ps \<Longrightarrow>
     exec r s (ErrorResp StoreUnavailable) s"
| lost_after_commit:
    "router_lookup app_routes (req_method r) (req_path r) = Found e ps \<Longrightarrow>
     dispatch r s = (a, s') \<Longrightarrow> exec r s (ErrorResp StoreUnavailable) s'"

subsection \<open>Client requests\<close>

text \<open>The client's request that deletes a task by slug.\<close>

definition delete_task_request :: "slug \<Rightarrow> request" where
  "delete_task_request v =
     \<lparr>req_method = DELETE, req_path = ''/API/task/'' @ v @ ''/delete'', req_user = None,
      req_body = NoBody\<rparr>"

subsection \<open>Failures keep the store well formed\<close>

lemma exec_wf [wf_intros]: "exec r s a s' \<Longrightarrow> wf_db s \<Longrightarrow> wf_db s'"
  by (induction rule: exec.induct) (metis dispatch_wf snd_conv)+

lemma exec_cases_store: "exec r s a s' \<Longrightarrow> s' = s \<or> s' = snd (dispatch r s)"
  by (induction rule: exec.induct) simp_all

subsection \<open>Runs of requests\<close>

lemma serve_Cons_eq:
  "serve (r # rs) s = (fst (dispatch r s) # fst (serve rs (snd (dispatch r s))),
                       snd (serve rs (snd (dispatch r s))))"
  by (simp split: prod.splits)

text \<open>A delete request for a valid slug is routed to \<open>delete_task\<close>.\<close>

lemma dispatch_delete_task_request:
  assumes "wf_db s" and "valid_segment v"
  shows "dispatch (delete_task_request v) s =
           (StatusResp status_success, s\<lparr>tasks := delete_where (\<lambda>r. slug r = v) (tasks s)\<rparr>)"
proof -
  have "router_lookup app_routes DELETE (''/API/task/'' @ v @ ''/delete'') =
      Found DeleteTask [(''task_slug'', v)]"
    using assms(2) by (rule task_slug_lookups(3))
  then show ?thesis
    by (simp add: dispatch_def delete_task_request_def respond_def delete_task_eq[OF assms(1)])
qed

lemma serve_delete_tasks:
  assumes "wf_db s" and "\<forall>v \<in> set vs. valid_segment v"
  shows "rows (tasks (snd (serve (map delete_task_request vs) s))) =
           filter (\<lambda>t. slug t \<notin> set vs) (rows (tasks s))
         \<and> wf_db (snd (serve (map delete_task_request vs) s))"
  using assms
proof (induction vs arbitrary: s)
  case Nil
  then show ?case by simp
next
  case (Cons v vs)
  have d: "snd (dispatch (delete_task_request v) s) =
      s\<lparr>tasks := delete_where (\<lambda>r. slug r = v) (tasks s)\<rparr>"
    using Cons.prems by (simp add: dispatch_delete_task_request)
  have wf: "wf_db (snd (dispatch (delete_task_request v) s))"
    using Cons.prems(1) by (rule dispatch_wf)
  show ?case
    using Cons.IH[OF wf] Cons.prems(2)
    unfolding list.map serve_Cons_eq d by (simp add: table_simps)
qed

lemma api_reachable_serve:
  "api_reachable s0 s \<Longrightarrow> api_reachable s0 (snd (serve rs s))"
proof (induction rs arbitrary: s)
  case Nil
  then show ?case by simp
next
  case (Cons r rs)
  have "api_reachable s0 (snd (dispatch r s))"
    using api_reachable.step[OF Cons.prems, of r "fst (dispatch r s)"] by simp
  then show ?case using Cons.IH unfolding serve_Cons_eq by simp
qed

end
