(* ===== verification/Spec2Isabelle.thy ===== *)
theory Spec2Isabelle
  imports Service
begin

text \<open>
  \<^bold>\<open>A verification development of the TODO service.\<close>
  The service is two FastAPI routers, \<open>src/todo_app/routers/category.py\<close> and
  \<open>src/todo_app/routers/task.py\<close>. Each handler builds one SQLAlchemy Core
  statement, executes it in the request's session, commits if it mutates,
  and returns the result. The routers rely on collaborators that are not
  under \<open>src/\<close>: the ORM models (\<open>todo_app.models.entries\<close>), the form
  schemas (\<open>todo_app.schemas.entries\<close>), the authentication dependency
  \<open>current_active_user\<close>, the session provider \<open>get_async_session\<close>, and
  the FastAPI/Starlette routing. These are modelled from the specification
  and the framework's documented behaviour.

  \<^bold>\<open>Theories and what they model.\<close>
  \<^item> \<open>Prelude\<close>: base types (\<open>user_id\<close>, \<open>slug\<close>, \<open>timestamp\<close>), the rule
    collections \<open>table_simps\<close> and \<open>wf_intros\<close>, \<^const>\<open>first\<close> (SQLAlchemy's
    \<open>scalars().first()\<close>), and list lemmas on keys, filters and updates.
  \<^item> \<open>Entities\<close>: the rows as extensible records (\<open>entity\<close>, \<open>owned\<close>,
    \<open>theme\<close>, \<open>task\<close>; a category is an \<open>owned\<close> row) and the forms.
    \<^const>\<open>task_of_form\<close> and \<^const>\<open>set_task_values\<close> model
    \<open>.values(**form.dict())\<close> of an insert and of an update.
  \<^item> \<open>Query\<close>: a table is its rows in heap order plus its \<open>SERIAL\<close>
    sequence. It models \<^const>\<open>insert_returning\<close>,
    \<^const>\<open>select_where\<close>, \<^const>\<open>update_returning\<close>,
    \<^const>\<open>delete_where\<close> and \<open>ORDER BY .. DESC\<close> as the stable insertion
    sort \<^const>\<open>order_by_desc\<close>. It states the listing contract
    \<^const>\<open>listing_spec\<close> and shows that the contract fixes the answer when
    keys are distinct.
  \<^item> \<open>Store\<close>: the three tables, the constraints (primary keys, unique slugs,
    the foreign keys \<open>theme.cat_id\<close> and \<open>task.theme_id\<close>), and
    \<^const>\<open>violation\<close>, the first constraint a store breaks.
    \<^const>\<open>execute_commit\<close> is one session: the statement is kept on
    success and rolled back with an \<open>IntegrityError\<close> on a violation. It also
    holds the authentication dependency \<^const>\<open>current_active_user\<close> and the
    invariant \<^const>\<open>wf_db\<close>: constraints hold and sequences are ahead of keys.
  \<^item> \<open>TaskRouter\<close> and \<open>CategoryRouter\<close>: one definition per handler, named
    as in the source and in file order (\<^const>\<open>add_new_task\<close> ..
    \<^const>\<open>delete_task\<close>, \<^const>\<open>add_new_category\<close> ..
    \<^const>\<open>delete_category\<close>). The joins of \<open>get_tasks_by_cat\<close> and
    \<open>get_tasks_by_theme\<close> are nested-loop joins in the order written.
    Each mutating handler has a lemma that gives its result on every branch
    (\<open>add_new_task_eq\<close>, \<open>update_task_eq\<close>, \<open>delete_category_eq\<close>, ...).
    Each handler also keeps \<^const>\<open>wf_db\<close>.
  \<^item> \<open>Routing\<close>: the route tables \<^const>\<open>task_routes\<close> and
    \<^const>\<open>category_routes\<close>, built from the prefixes and the decorators.
    It models Starlette's \<^const>\<open>compile_path\<close> and
    \<^const>\<open>match_pieces\<close>, the first-match loop \<^const>\<open>router_lookup\<close>
    (with 405), and the binding of path parameters and forms in
    \<^const>\<open>handle\<close>. It models the decorators' \<open>response_model\<close> check
    (\<^const>\<open>task_read\<close>, \<^const>\<open>category_read\<close>: a \<open>None\<close> answers 500), and
    the application \<^const>\<open>dispatch\<close> (404, 405, the \<open>redirect_slashes\<close> 307).
    It also holds \<^const>\<open>serve\<close> (requests in sequence), the reachability
    relation \<^const>\<open>api_reachable\<close>, and \<^const>\<open>url_path_for\<close>.
  \<^item> \<open>Service\<close>: the request as a step relation \<^const>\<open>exec\<close> that may lose
    the store connection before or after the commit (section 7(e) of the
    specification), and the client's delete request.
  \<^item> This theory: concrete stores for the witnesses, and the claims C1--C30.

  \<^bold>\<open>What the claims show.\<close>
  \<^item> C1--C3, C6--C8 and C17--C24: create, get, update and delete of tasks
    and categories, branch by branch, errors included. This covers the
    specification's testable properties. Two findings: deleting a referenced
    category fails (C21), and slugs are not validated (C3, C15).
  \<^item> C4, C5, C13, C14: listings answer the authenticated caller's rows only.
    The slug endpoints ignore the caller entirely (a finding).
  \<^item> C9, C10, C25: the listings by relationship refine the joins into
    foreign-key filters. With distinct dates the listing contract fixes
    the answer of \<^const>\<open>get_all_tasks\<close>.
  \<^item> C11: a lookup by a slug no row has answers a server error, not the
    \<open>null\<close> the specification promises, because the response model is not
    optional (a finding).
  \<^item> C12, C15, C16, C26: the route table. Every \<open>GET\<close> route is a read,
    a task with an unroutable slug can never be changed or deleted, and
    fetched tasks have valid slugs. No route shadows another
    (\<open>url_path_for\<close> round trip).
  \<^item> C27--C30: the service in runs and under failures. A delete is safe to
    retry after a lost reply but a create is not (C28, a finding). The task
    table can always be emptied when slugs are valid (liveness). The API
    never changes the theme table.

  \<^bold>\<open>Bounds and termination.\<close> Everything is total and executable:
  \<^const>\<open>compile_path\<close> terminates by the length of the unread template, and
  the other functions recurse structurally. No fuel is needed. Keys are
  \<open>nat\<close>, since a \<open>SERIAL\<close> key only grows. Its 32-bit limit (about two
  billion rows) is not modelled.

  \<^bold>\<open>Deliberate simplifications.\<close> A rolled-back statement also restores the
  sequence counter, although PostgreSQL does not roll back \<open>nextval\<close>.
  This changes only which fresh key the next insert gets, never the rows.
  Ties of \<open>ORDER BY .. DESC\<close> come out in scan order, one order SQL admits.
  The 500 of C11 is the behaviour of FastAPI with pydantic 2; with pydantic
  1 a \<open>None\<close> may be sent as \<open>null\<close>, and the repository pins no version.
  Foreign keys are enforced with the default \<open>NO ACTION\<close> rule, as in
  PostgreSQL.

  \<^bold>\<open>Not modelled.\<close> Form field validation (422) beyond a missing form;
  token handling and user management; timeouts; the interleaving of
  concurrent requests inside the store (requests are handled one after
  another, which single-statement transactions allow); the JSON
  serialisation of rows (responses carry the row values); the application
  entry point and configuration. None of these is under \<open>src/\<close>. Of the
  two router files, only the imports, blank lines and the closing \<open>TODO\<close>
  comments are left unmapped; they translate to nothing.
\<close>

subsection \<open>A concrete store for the witnesses\<close>

definition demo_db :: db where
  "demo_db =
     \<lparr>categories = \<lparr>rows = [\<lparr>row_id = 1, slug = ''work'', title = ''Work'', user_id = 1\<rparr>,
                             \<lparr>row_id = 2, slug = ''home'', title = ''Home'', user_id = 2\<rparr>],
                     seq = 2\<rparr>,
      themes = \<lparr>rows = [\<lparr>row_id = 1, slug = ''proj'', title = ''Project'', cat_id = 1\<rparr>,
                         \<lparr>row_id = 2, slug = ''chores'', title = ''Chores'', cat_id = 2\<rparr>],
                 seq = 2\<rparr>,
      tasks = \<lparr>rows = [\<lparr>row_id = 1, slug = ''t1'', title = ''Draft'', user_id = 1,
                         creation_date = 10, theme_id = 1\<rparr>,
                       \<lparr>row_id = 2, slug = ''t3'', title = ''Dishes'', user_id = 2,
                         creation_date = 15, theme_id = 2\<rparr>],
                seq = 2\<rparr>\<rparr>"

definition demo_task_form :: task_form where
  "demo_task_form =
     \<lparr>tf_title = ''Review'', tf_slug = ''t9'', tf_creation_date = 20, tf_user_id = 1,
      tf_theme_id = 1\<rparr>"

definition demo_request :: "http_method \<Rightarrow> string \<Rightarrow> user_id option \<Rightarrow> request" where
  "demo_request m p u = \<lparr>req_method = m, req_path = p, req_user = u, req_body = NoBody\<rparr>"

definition create_task_request :: "task_form \<Rightarrow> request" where
  "create_task_request f =
     \<lparr>req_method = POST, req_path = ''/API/task/create'', req_user = None, req_body = TaskBody f\<rparr>"

definition demo_category_form :: category_form where
  "demo_category_form = \<lparr>cf_title = ''Garden'', cf_slug = ''garden'', cf_user_id = 1\<rparr>"

lemmas demo_defs = demo_db_def demo_task_form_def demo_request_def

lemma demo_db_wf: "wf_db demo_db"
  by (simp add: demo_defs wf_db_def violation_def seq_ok_def ids_def slugs_def)

lemma demo_add_new_task:
  "add_new_task demo_task_form demo_db =
     (Inr (Some (new_task demo_task_form demo_db)),
      demo_db\<lparr>tasks := snd (insert_returning (\<lambda>i. task_of_form i demo_task_form) (tasks demo_db))\<rparr>)"
  by (simp only: add_new_task_eq[OF demo_db_wf]) (simp add: demo_defs ids_def slugs_def)

text \<open>The create request of the client reaches \<open>add_new_task\<close>.\<close>

lemma create_task_request_lookup:
  "router_lookup app_routes (req_method (create_task_request f)) (req_path (create_task_request f)) =
     Found AddNewTask []"
  by (simp add: create_task_request_def route_eval router_lookup_method_first
      del: router_lookup.simps(2))

subsection \<open>Tasks: create, read, update, delete\<close>

text \<open>C1. On a well-formed store, a task that \<open>add_new_task\<close> creates is
  returned as the response and is what \<open>get_task\<close> then finds under its slug:
  the form's columns under the next key of the sequence.\<close>

theorem add_new_task_then_get_task:
  assumes "wf_db s" and "add_new_task f s = (Inr r, s')"
  shows "r = Some (new_task f s) \<and> get_task (tf_slug f) s' = Some (new_task f s)"
proof -
  from assms have fresh: "tf_slug f \<notin> set (slugs (tasks s))"
    and ok: "r = Some (new_task f s)"
    and s': "s' = s\<lparr>tasks := snd (insert_returning (\<lambda>i. task_of_form i f) (tasks s))\<rparr>"
    by (simp_all add: add_new_task_eq split: if_splits)
  from fresh have "filter (\<lambda>t. slug t = tf_slug f) (rows (tasks s)) = []"
    by (simp add: slugs_def filter_key_absent)
  with ok s' show ?thesis
    by (simp add: get_task_def select_where_def table_simps new_task_def)
qed

theorem add_new_task_then_get_task_witness:
  "wf_db demo_db \<and>
   add_new_task demo_task_form demo_db =
     (Inr (Some (new_task demo_task_form demo_db)), snd (add_new_task demo_task_form demo_db)) \<and>
   get_task ''t9'' (snd (add_new_task demo_task_form demo_db)) =
     Some (new_task demo_task_form demo_db)"
proof -
  have a: "add_new_task demo_task_form demo_db =
      (Inr (Some (new_task demo_task_form demo_db)), snd (add_new_task demo_task_form demo_db))"
    by (simp only: add_new_task_eq[OF demo_db_wf]) (simp add: demo_defs ids_def slugs_def)
  show ?thesis
    using add_new_task_then_get_task[OF demo_db_wf a] demo_db_wf a
    by (simp add: demo_task_form_def)
qed

text \<open>C2. Creating a task whose slug is taken fails with the unique
  violation of \<open>task.slug\<close>, and the store keeps only the first task.\<close>

theorem add_new_task_duplicate_slug:
  assumes "wf_db s" and "tf_slug f \<in> set (slugs (tasks s))"
  shows "add_new_task f s = (Inl (IntegrityError Task_slug_key), s)"
  using assms by (simp add: add_new_task_eq)

theorem add_new_task_duplicate_slug_witness:
  "add_new_task (demo_task_form\<lparr>tf_slug := ''t1''\<rparr>) demo_db =
     (Inl (IntegrityError Task_slug_key), demo_db)"
proof -
  have "tf_slug (demo_task_form\<lparr>tf_slug := ''t1''\<rparr>) \<in> set (slugs (tasks demo_db))"
    by (simp add: demo_defs slugs_def)
  then show ?thesis by (rule add_new_task_duplicate_slug[OF demo_db_wf])
qed

text \<open>C3. Creating a task succeeds exactly when its slug is free and its
  theme exists: the slug's content is not checked (no slugify).\<close>

theorem add_new_task_succeeds_iff:
  assumes "wf_db s"
  shows "(\<exists>t. fst (add_new_task f s) = Inr (Some t)) \<longleftrightarrow>
         tf_slug f \<notin> set (slugs (tasks s)) \<and> tf_theme_id f \<in> set (ids (themes s))"
  using assms by (simp add: add_new_task_eq)

theorem add_new_task_succeeds_iff_witness:
  "(\<exists>t. fst (add_new_task (demo_task_form\<lparr>tf_slug := ''a/b''\<rparr>) demo_db) = Inr (Some t))"
  using add_new_task_succeeds_iff[OF demo_db_wf, of "demo_task_form\<lparr>tf_slug := ''a/b''\<rparr>"]
  by (simp add: demo_defs slugs_def ids_def)


subsection \<open>Listings are scoped to the caller\<close>

text \<open>C4. Whatever the request, a list of tasks in a response was asked for
  by an authenticated caller and holds only that caller's tasks: this covers
  \<open>GET /API/task/\<close>, \<open>/task/cat/{cat_slug}\<close> and \<open>/task/theme/{theme_slug}\<close>.\<close>

theorem dispatch_task_list_owner:
  assumes "dispatch r s = (TaskList ys, s')" and "t \<in> set ys"
  shows "req_user r = Some (user_id t)"
  using assms
  by (auto simp: dispatch_def Let_def reply_def respond_def task_listings_owner
      task_read_def category_read_def split: lookup.splits if_splits endpoint.splits option.splits sum.splits body.splits
      prod.splits elim!: handle.elims)


theorem dispatch_task_list_owner_witness:
  "dispatch (demo_request GET ''/API/task/'' (Some 1)) demo_db =
     (TaskList [hd (rows (tasks demo_db))], demo_db) \<and>
   req_user (demo_request GET ''/API/task/'' (Some 1)) = Some (user_id (hd (rows (tasks demo_db))))"
proof -
  have d: "dispatch (demo_request GET ''/API/task/'' (Some 1)) demo_db =
     (TaskList [hd (rows (tasks demo_db))], demo_db)"
    by code_simp
  show ?thesis using dispatch_task_list_owner[OF d] d by simp
qed

text \<open>C5. Likewise, a list of categories in a response holds only the
  authenticated caller's categories (\<open>GET /API/category/\<close>).\<close>

theorem dispatch_category_list_owner:
  assumes "dispatch r s = (CategoryList cs, s')" and "c \<in> set cs"
  shows "req_user r = Some (user_id c)"
  using assms
  by (auto simp: dispatch_def Let_def reply_def respond_def get_all_categories_owner
      task_read_def category_read_def split: lookup.splits if_splits endpoint.splits option.splits sum.splits body.splits
      prod.splits elim!: handle.elims)

theorem dispatch_category_list_owner_witness:
  "dispatch (demo_request GET ''/API/category/'' (Some 2)) demo_db =
     (CategoryList [rows (categories demo_db) ! 1], demo_db) \<and>
   req_user (demo_request GET ''/API/category/'' (Some 2)) =
     Some (user_id (rows (categories demo_db) ! 1))"
proof -
  have d: "dispatch (demo_request GET ''/API/category/'' (Some 2)) demo_db =
     (CategoryList [rows (categories demo_db) ! 1], demo_db)"
    by code_simp
  show ?thesis using dispatch_category_list_owner[OF d] d by simp
qed

subsection \<open>Updating and deleting by slug\<close>

text \<open>C6. Updating a slug no task has answers \<open>None\<close> and leaves the store
  unchanged.\<close>

theorem update_task_missing:
  assumes "wf_db s" and "get_task sl s = None"
  shows "update_task sl f s = (Inr None, s)"
  using assms by (simp add: update_task_eq)

theorem update_task_missing_witness:
  "update_task ''nope'' demo_task_form demo_db = (Inr None, demo_db)"
proof -
  have "get_task ''nope'' demo_db = None"
    by (simp add: demo_defs get_task_def select_where_def)
  then show ?thesis by (rule update_task_missing[OF demo_db_wf])
qed

text \<open>C7. Deleting a slug no task has reports success and leaves the store
  unchanged: no existence check, no error.\<close>

theorem delete_task_missing:
  assumes "wf_db s" and "get_task sl s = None"
  shows "delete_task sl s = (Inr status_success, s)"
proof -
  from assms(2) have "filter (\<lambda>r. slug r = sl) (rows (tasks s)) = []"
    by (simp add: get_task_def select_where_def)
  then show ?thesis
    by (simp add: delete_task_eq[OF assms(1)] delete_where_no_match)
qed

theorem delete_task_missing_witness:
  "delete_task ''nope'' demo_db = (Inr status_success, demo_db)"
proof -
  have "get_task ''nope'' demo_db = None"
    by (simp add: demo_defs get_task_def select_where_def)
  then show ?thesis by (rule delete_task_missing[OF demo_db_wf])
qed

text \<open>C8. Deleting the slug of an existing task reports success and removes
  exactly that row; the other tables are untouched and the slug is free
  afterwards.\<close>

theorem delete_task_existing:
  assumes "wf_db s" and "get_task sl s = Some t"
  shows "delete_task sl s = (Inr status_success, s\<lparr>tasks := (tasks s)\<lparr>rows := remove1 t (rows (tasks s))\<rparr>\<rparr>)
         \<and> get_task sl (snd (delete_task sl s)) = None"
proof -
  from assms(2) have t: "t \<in> set (rows (tasks s))" and sl: "slug t = sl"
    by (auto simp: get_task_def select_where_def dest: first_filter_SomeD)
  have "distinct (map slug (rows (tasks s)))"
    using assms(1) by (simp add: wf_db_def violation_None_iff slugs_def)
  then have rm: "filter (\<lambda>r. slug r \<noteq> sl) (rows (tasks s)) = remove1 t (rows (tasks s))"
    using filter_other_keys_remove1[of slug "rows (tasks s)" t] t sl by simp
  then show ?thesis
    by (simp add: delete_task_eq[OF assms(1)] delete_where_def get_task_def select_where_def
        rm[symmetric] filter_empty_conv)
qed

theorem delete_task_existing_witness:
  "delete_task ''t1'' demo_db =
     (Inr status_success,
      demo_db\<lparr>tasks := (tasks demo_db)\<lparr>rows := remove1 (hd (rows (tasks demo_db))) (rows (tasks demo_db))\<rparr>\<rparr>)
   \<and> get_task ''t1'' (snd (delete_task ''t1'' demo_db)) = None"
proof -
  have "get_task ''t1'' demo_db = Some (hd (rows (tasks demo_db)))"
    by (simp add: demo_defs get_task_def select_where_def)
  then show ?thesis by (rule delete_task_existing[OF demo_db_wf])
qed


subsection \<open>Listings by relationship\<close>

text \<open>C9. On a well-formed store, \<open>get_tasks_by_cat\<close> returns the caller's
  tasks whose theme belongs to a category with the given slug, each once,
  newest first: the join computes the filter by foreign keys.\<close>

theorem get_tasks_by_cat_refines:
  assumes "wf_db s"
  shows "get_tasks_by_cat cs (Some u) s =
           Inr (order_by_desc creation_date
                  (filter (\<lambda>t. task_in_category s cs t \<and> user_id t = u) (rows (tasks s))))"
  using assms tasks_by_category_rows[of s cs u]
  by (simp add: get_tasks_by_cat_def wf_db_def violation_None_iff)

theorem get_tasks_by_cat_refines_witness:
  "wf_db demo_db \<and>
   get_tasks_by_cat ''work'' (Some 1) demo_db = Inr [hd (rows (tasks demo_db))]"
  using get_tasks_by_cat_refines[OF demo_db_wf, of "''work''" 1] demo_db_wf
  by (simp add: demo_defs task_in_category_def)

text \<open>C10. Likewise \<open>get_tasks_by_theme\<close> returns the caller's tasks whose
  theme has the given slug, newest first.\<close>

theorem get_tasks_by_theme_refines:
  assumes "wf_db s"
  shows "get_tasks_by_theme ts (Some u) s =
           Inr (order_by_desc creation_date
                  (filter (\<lambda>t. task_in_theme s ts t \<and> user_id t = u) (rows (tasks s))))"
  using assms tasks_by_theme_rows[of s ts u]
  by (simp add: get_tasks_by_theme_def wf_db_def violation_None_iff)

theorem get_tasks_by_theme_refines_witness:
  "wf_db demo_db \<and>
   get_tasks_by_theme ''chores'' (Some 2) demo_db = Inr [rows (tasks demo_db) ! 1]"
  using get_tasks_by_theme_refines[OF demo_db_wf, of "''chores''" 2] demo_db_wf
  by (simp add: demo_defs task_in_theme_def)

text \<open>C11. Looking up a slug that no row has does not answer \<open>null\<close>, as the
  specification says. FastAPI validates the \<open>None\<close> of \<open>first()\<close> against the
  non-optional \<open>response_model\<close> (\<open>TaskRead\<close>, \<open>CategoryRead\<close>), and the request
  ends in a server error. The store is unchanged, and the caller and body
  do not matter.\<close>

theorem get_missing_slug_server_error:
  assumes "valid_segment v"
  shows "(get_task v s = None \<longrightarrow>
            dispatch \<lparr>req_method = GET, req_path = ''/API/task/'' @ v, req_user = u, req_body = b\<rparr> s
              = (Http500, s)) \<and>
         (get_category v s = None \<longrightarrow>
            dispatch \<lparr>req_method = GET, req_path = ''/API/category/'' @ v, req_user = u, req_body = b\<rparr> s
              = (Http500, s))"
proof -
  have lt: "router_lookup app_routes GET (''/API/task/'' @ v) = Found GetTask [(''task_slug'', v)]"
    using assms by (rule task_slug_lookups(1))
  have lc: "router_lookup app_routes GET (''/API/category/'' @ v) =
      Found GetCategory [(''cat_slug'', v)]"
    using assms by (rule category_slug_lookup)
  show ?thesis using lt lc by (simp add: dispatch_def)
qed

theorem get_missing_slug_server_error_witness:
  "valid_segment ''nope'' \<and> get_task ''nope'' demo_db = None \<and> get_category ''nope'' demo_db = None \<and>
   dispatch (demo_request GET ''/API/task/nope'' None) demo_db = (Http500, demo_db) \<and>
   dispatch (demo_request GET ''/API/category/nope'' None) demo_db = (Http500, demo_db)"
proof -
  have v: "valid_segment ''nope''" by (simp add: valid_segment_def)
  have g: "get_task ''nope'' demo_db = None" "get_category ''nope'' demo_db = None"
    by (simp_all add: demo_defs get_task_def get_category_def select_where_def)
  show ?thesis
    using get_missing_slug_server_error[OF v, of demo_db None NoBody] v g
    by (simp add: demo_request_def)
qed

subsection \<open>The service as a whole\<close>

text \<open>C12. A \<open>GET\<close> request never changes the store, whatever it is routed
  to: every \<open>GET\<close> route is a read.\<close>

theorem dispatch_get_read_only:
  assumes "req_method r = GET"
  shows "snd (dispatch r s) = s"
proof (cases "router_lookup app_routes (req_method r) (req_path r)")
  case (Found e ps)
  with assms obtain rt where "rt \<in> set app_routes" "route_method rt = GET" "route_endpoint rt = e"
    by (auto dest: router_lookup_Found)
  then have "e \<in> {GetAllCategories, GetCategory, GetAllTasks, GetTasksByCat, GetTasksByTheme, GetTask}"
    using app_routes_methods by blast
  with Found show ?thesis by (simp add: dispatch_def handle_reads_unchanged)
qed (simp_all add: dispatch_def Let_def)

theorem dispatch_get_read_only_witness:
  "req_method (demo_request GET ''/API/task/t1'' None) = GET \<and>
   snd (dispatch (demo_request GET ''/API/task/t1'' None) demo_db) = demo_db"
  using dispatch_get_read_only[of "demo_request GET ''/API/task/t1'' None" demo_db]
  by (simp add: demo_request_def)


subsection \<open>Who may do what, and which slugs are reachable\<close>

text \<open>C13. The slug endpoints (create, get, update and delete of categories
  and tasks) do not look at the caller: any caller, authenticated or not,
  gets the same response and leaves the same store for the same request.
  Only the listings are scoped to the owner; ownership is never checked.\<close>

theorem slug_endpoints_ignore_caller:
  assumes "router_lookup app_routes (req_method r) (req_path r) = Found e ps"
    and "e \<notin> {GetAllCategories, GetAllTasks, GetTasksByCat, GetTasksByTheme}"
  shows "dispatch (r\<lparr>req_user := u\<rparr>) s = dispatch r s"
  using assms by (cases e) (simp_all add: dispatch_def)

theorem slug_endpoints_ignore_caller_witness:
  "router_lookup app_routes DELETE ''/API/task/t1/delete'' = Found DeleteTask [(''task_slug'', ''t1'')] \<and>
   DeleteTask \<notin> {GetAllCategories, GetAllTasks, GetTasksByCat, GetTasksByTheme} \<and>
   dispatch (demo_request DELETE ''/API/task/t1/delete'' (Some 2)) demo_db =
   dispatch (demo_request DELETE ''/API/task/t1/delete'' (Some 1)) demo_db"
proof -
  have l: "router_lookup app_routes DELETE ''/API/task/t1/delete'' =
      Found DeleteTask [(''task_slug'', ''t1'')]"
    by (simp add: route_eval router_lookup_method_first del: router_lookup.simps(2))
  let ?r = "demo_request DELETE ''/API/task/t1/delete'' (Some 1)"
  have f: "router_lookup app_routes (req_method ?r) (req_path ?r) =
      Found DeleteTask [(''task_slug'', ''t1'')]"
    using l by (simp add: demo_request_def)
  have n: "DeleteTask \<notin> {GetAllCategories, GetAllTasks, GetTasksByCat, GetTasksByTheme}"
    by simp
  have "dispatch (?r\<lparr>req_user := Some 2\<rparr>) demo_db = dispatch ?r demo_db"
    by (rule slug_endpoints_ignore_caller[OF f n])
  with l n show ?thesis by (simp add: demo_request_def)
qed

text \<open>C14. The listings reject a request without an authenticated caller with
  the 401 of \<open>current_active_user\<close>, without reading the store.\<close>

theorem listings_require_login:
  assumes "req_user r = None"
    and "router_lookup app_routes (req_method r) (req_path r) = Found e ps"
    and "e \<in> {GetAllCategories, GetAllTasks, GetTasksByCat, GetTasksByTheme}"
  shows "dispatch r s = (ErrorResp Unauthorized, s)"
proof -
  have p: "\<And>n. n \<in> set (endpoint_params e) \<Longrightarrow> \<exists>v. map_of ps n = Some v"
    using found_param_present[OF assms(2)] by blast
  from assms(3) p show ?thesis
    using assms(1,2) by (auto simp: dispatch_def reply_def)
qed

theorem listings_require_login_witness:
  "req_user (demo_request GET ''/API/task/cat/work'' None) = None \<and>
   router_lookup app_routes GET ''/API/task/cat/work'' = Found GetTasksByCat [(''cat_slug'', ''work'')] \<and>
   dispatch (demo_request GET ''/API/task/cat/work'' None) demo_db = (ErrorResp Unauthorized, demo_db)"
proof -
  have l: "router_lookup app_routes GET ''/API/task/cat/work'' = Found GetTasksByCat [(''cat_slug'', ''work'')]"
    by (simp add: route_eval router_lookup_method_first del: router_lookup.simps(2))
  let ?r = "demo_request GET ''/API/task/cat/work'' None"
  have u: "req_user ?r = None" by (simp add: demo_request_def)
  have f: "router_lookup app_routes (req_method ?r) (req_path ?r) =
      Found GetTasksByCat [(''cat_slug'', ''work'')]"
    using l by (simp add: demo_request_def)
  have e: "GetTasksByCat \<in> {GetAllCategories, GetAllTasks, GetTasksByCat, GetTasksByTheme}"
    by simp
  have "dispatch ?r demo_db = (ErrorResp Unauthorized, demo_db)"
    by (rule listings_require_login[OF u f e])
  with l u show ?thesis by simp
qed

text \<open>C15. A task whose slug is empty or contains \<open>/\<close> (which
  \<open>add_new_task\<close> accepts, see C3) is never changed or deleted by any
  request: no path parameter can equal its slug.\<close>

theorem invalid_slug_task_persists:
  assumes "t \<in> set (rows (tasks s))" and "\<not> valid_segment (slug t)"
  shows "t \<in> set (rows (tasks (snd (dispatch r s))))"
proof (cases "router_lookup app_routes (req_method r) (req_path r)")
  case (Found e ps)
  have ne: "\<And>n v. map_of ps n = Some v \<Longrightarrow> slug t \<noteq> v"
    using found_valid[OF Found] assms(2) by blast
  show ?thesis
  proof (cases e)
    case UpdateTask
    with Found assms(1) ne show ?thesis
      by (auto simp: dispatch_def respond_def task_rows_kept_update split: option.splits body.splits prod.splits)
  next
    case DeleteTask
    with Found assms(1) ne show ?thesis
      by (auto simp: dispatch_def respond_def task_rows_kept_delete split: option.splits)
  qed (use Found assms(1) in \<open>auto simp: dispatch_def respond_def task_rows_kept_add split: option.splits body.splits prod.splits\<close>)
qed (simp_all add: dispatch_def Let_def assms(1))

theorem invalid_slug_task_persists_witness:
  "new_task (demo_task_form\<lparr>tf_slug := ''a/b''\<rparr>) demo_db
     \<in> set (rows (tasks (snd (add_new_task (demo_task_form\<lparr>tf_slug := ''a/b''\<rparr>) demo_db)))) \<and>
   \<not> valid_segment (slug (new_task (demo_task_form\<lparr>tf_slug := ''a/b''\<rparr>) demo_db)) \<and>
   new_task (demo_task_form\<lparr>tf_slug := ''a/b''\<rparr>) demo_db
     \<in> set (rows (tasks (snd (dispatch (demo_request DELETE ''/API/task/a/b/delete'' (Some 1))
                                 (snd (add_new_task (demo_task_form\<lparr>tf_slug := ''a/b''\<rparr>) demo_db))))))"
proof -
  let ?f = "demo_task_form\<lparr>tf_slug := ''a/b''\<rparr>"
  have m: "new_task ?f demo_db \<in> set (rows (tasks (snd (add_new_task ?f demo_db))))"
    by (simp only: add_new_task_eq[OF demo_db_wf]) (simp add: demo_defs slugs_def ids_def table_simps new_task_def)
  have v: "\<not> valid_segment (slug (new_task ?f demo_db))"
    by (simp add: valid_segment_def new_task_def demo_task_form_def)
  show ?thesis using invalid_slug_task_persists[OF m v] m v by blast
qed

text \<open>C16. A task that a \<open>GET\<close> request returns has a valid slug: tasks
  with other slugs cannot be fetched.\<close>

theorem get_response_slug_valid:
  assumes "dispatch r s = (TaskResp (Some t), s')" and "req_method r = GET"
  shows "valid_segment (slug t)"
proof (cases "router_lookup app_routes (req_method r) (req_path r)")
  case (Found e ps)
  with assms(2) obtain rt :: route where "rt \<in> set app_routes" "route_method rt = GET" "route_endpoint rt = e"
    by (auto dest: router_lookup_Found)
  then have e: "e \<in> {GetAllCategories, GetCategory, GetAllTasks, GetTasksByCat, GetTasksByTheme, GetTask}"
    using app_routes_methods by blast
  have "\<And>n v. map_of ps n = Some v \<Longrightarrow> valid_segment v"
    using found_valid[OF Found] by blast
  with e Found assms(1) show ?thesis
    by (auto simp: dispatch_def reply_def task_read_def category_read_def dest!: get_task_SomeD
        split: option.splits sum.splits)
qed (use assms(1) in \<open>simp_all add: dispatch_def Let_def split: if_splits\<close>)

theorem get_response_slug_valid_witness:
  "dispatch (demo_request GET ''/API/task/t1'' None) demo_db =
     (TaskResp (Some (hd (rows (tasks demo_db)))), demo_db) \<and>
   req_method (demo_request GET ''/API/task/t1'' None) = GET \<and>
   valid_segment (slug (hd (rows (tasks demo_db))))"
proof -
  have d: "dispatch (demo_request GET ''/API/task/t1'' None) demo_db =
     (TaskResp (Some (hd (rows (tasks demo_db)))), demo_db)"
    by code_simp
  have g: "req_method (demo_request GET ''/API/task/t1'' None) = GET"
    by (simp add: demo_request_def)
  show ?thesis using get_response_slug_valid[OF d g] d g by simp
qed


subsection \<open>Categories: create, read, update, delete\<close>

text \<open>C17. On a well-formed store, a category that \<open>add_new_category\<close>
  creates is returned as the response and is what \<open>get_category\<close> then
  finds under its slug: the form's columns under the next key.\<close>

theorem add_new_category_then_get_category:
  assumes "wf_db s" and "add_new_category f s = (Inr r, s')"
  shows "r = Some (new_category f s) \<and> get_category (cf_slug f) s' = Some (new_category f s)"
proof -
  from assms have fresh: "cf_slug f \<notin> set (slugs (categories s))"
    and ok: "r = Some (new_category f s)"
    and s': "s' = s\<lparr>categories := snd (insert_returning (\<lambda>i. category_of_form i f) (categories s))\<rparr>"
    by (simp_all add: add_new_category_eq split: if_splits)
  from fresh have "filter (\<lambda>c. slug c = cf_slug f) (rows (categories s)) = []"
    by (simp add: slugs_def filter_key_absent)
  with ok s' show ?thesis
    by (simp add: get_category_def select_where_def table_simps new_category_def)
qed

theorem add_new_category_then_get_category_witness:
  "wf_db demo_db \<and>
   add_new_category demo_category_form demo_db =
     (Inr (Some (new_category demo_category_form demo_db)),
      snd (add_new_category demo_category_form demo_db)) \<and>
   get_category ''garden'' (snd (add_new_category demo_category_form demo_db)) =
     Some (new_category demo_category_form demo_db)"
proof -
  have a: "add_new_category demo_category_form demo_db =
      (Inr (Some (new_category demo_category_form demo_db)),
       snd (add_new_category demo_category_form demo_db))"
    by (simp only: add_new_category_eq[OF demo_db_wf])
      (simp add: demo_defs demo_category_form_def slugs_def)
  show ?thesis
    using add_new_category_then_get_category[OF demo_db_wf a] demo_db_wf a
    by (simp add: demo_category_form_def)
qed

text \<open>C18. Creating a category whose slug another category has fails with the
  unique violation of \<open>category.slug\<close>; the store keeps only the first.\<close>

theorem add_new_category_duplicate_slug:
  assumes "wf_db s" and "get_category (cf_slug f) s = Some c"
  shows "add_new_category f s = (Inl (IntegrityError Category_slug_key), s)"
  using assms get_category_SomeD[OF assms(2)]
  by (force simp: add_new_category_eq slugs_def)

theorem add_new_category_duplicate_slug_witness:
  "add_new_category (demo_category_form\<lparr>cf_slug := ''home''\<rparr>) demo_db =
     (Inl (IntegrityError Category_slug_key), demo_db)"
proof -
  have "get_category (cf_slug (demo_category_form\<lparr>cf_slug := ''home''\<rparr>)) demo_db =
          Some (rows (categories demo_db) ! 1)"
    by (simp add: demo_defs get_category_def select_where_def)
  then show ?thesis by (rule add_new_category_duplicate_slug[OF demo_db_wf])
qed

text \<open>C19. Updating a slug no category has answers \<open>None\<close> and leaves the
  store unchanged.\<close>

theorem update_category_missing:
  assumes "wf_db s" and "get_category sl s = None"
  shows "update_category sl f s = (Inr None, s)"
  using assms by (simp add: update_category_eq)

theorem update_category_missing_witness:
  "update_category ''nope'' demo_category_form demo_db = (Inr None, demo_db)"
proof -
  have "get_category ''nope'' demo_db = None"
    by (simp add: demo_defs get_category_def select_where_def)
  then show ?thesis by (rule update_category_missing[OF demo_db_wf])
qed

text \<open>C20. Deleting a slug no category has reports success and leaves the
  store unchanged.\<close>

theorem delete_category_missing:
  assumes "wf_db s" and "get_category sl s = None"
  shows "delete_category sl s = (Inr status_success, s)"
proof -
  from assms(2) have none: "filter (\<lambda>c. slug c = sl) (rows (categories s)) = []"
    by (simp add: get_category_def select_where_def)
  then have "\<not> category_referenced s sl"
    by (auto simp: category_referenced_def filter_empty_conv)
  with none show ?thesis
    by (simp add: delete_category_eq[OF assms(1)] delete_where_no_match)
qed

theorem delete_category_missing_witness:
  "delete_category ''nope'' demo_db = (Inr status_success, demo_db)"
proof -
  have "get_category ''nope'' demo_db = None"
    by (simp add: demo_defs get_category_def select_where_def)
  then show ?thesis by (rule delete_category_missing[OF demo_db_wf])
qed

text \<open>C21. Deleting a category that a theme refers to is refused by the foreign
  key \<open>theme.cat_id\<close>: the request fails with that violation and nothing
  is deleted (no cascade; the router does not report success here).\<close>

theorem delete_category_referenced:
  assumes "wf_db s" and "get_category sl s = Some c"
    and "th \<in> set (rows (themes s))" and "cat_id th = row_id c"
  shows "delete_category sl s = (Inl (IntegrityError Theme_cat_id_fkey), s)"
proof -
  have "category_referenced s sl"
    using get_category_SomeD[OF assms(2)] assms(3,4) by (auto simp: category_referenced_def)
  then show ?thesis by (simp add: delete_category_eq[OF assms(1)])
qed

theorem delete_category_referenced_witness:
  "delete_category ''work'' demo_db = (Inl (IntegrityError Theme_cat_id_fkey), demo_db)"
proof -
  have "get_category ''work'' demo_db = Some (hd (rows (categories demo_db)))"
    by (simp add: demo_defs get_category_def select_where_def)
  moreover have "hd (rows (themes demo_db)) \<in> set (rows (themes demo_db))"
    and "cat_id (hd (rows (themes demo_db))) = row_id (hd (rows (categories demo_db)))"
    by (simp_all add: demo_defs)
  ultimately show ?thesis by (rule delete_category_referenced[OF demo_db_wf])
qed

text \<open>C22. Deleting an existing category that no theme refers to reports
  success and removes exactly that row; the slug is free afterwards.\<close>

theorem delete_category_existing:
  assumes "wf_db s" and "get_category sl s = Some c"
    and "\<forall>th \<in> set (rows (themes s)). cat_id th \<noteq> row_id c"
  shows "delete_category sl s =
           (Inr status_success,
            s\<lparr>categories := (categories s)\<lparr>rows := remove1 c (rows (categories s))\<rparr>\<rparr>)
         \<and> get_category sl (snd (delete_category sl s)) = None"
proof -
  from get_category_SomeD[OF assms(2)] have c: "c \<in> set (rows (categories s))" and sl: "slug c = sl"
    by simp_all
  have "distinct (map slug (rows (categories s)))"
    using assms(1) by (simp add: wf_db_def violation_None_iff slugs_def)
  then have rm: "filter (\<lambda>r. slug r \<noteq> sl) (rows (categories s)) = remove1 c (rows (categories s))"
    using filter_other_keys_remove1[of slug "rows (categories s)" c] c sl by simp
  have "\<not> category_referenced s sl"
  proof
    assume "category_referenced s sl"
    then obtain c' th where "c' \<in> set (rows (categories s))" "slug c' = sl"
      "th \<in> set (rows (themes s))" "cat_id th = row_id c'"
      by (auto simp: category_referenced_def)
    moreover have "c' = c"
      using \<open>distinct (map slug (rows (categories s)))\<close> c sl calculation(1,2)
      by (metis distinct_map inj_onD)
    ultimately show False using assms(3) by auto
  qed
  then have del: "delete_category sl s =
      (Inr status_success, s\<lparr>categories := (categories s)\<lparr>rows := remove1 c (rows (categories s))\<rparr>\<rparr>)"
    by (simp add: delete_category_eq[OF assms(1)] delete_where_def rm)
  moreover have "get_category sl (snd (delete_category sl s)) = None"
    by (simp add: del get_category_def select_where_def rm[symmetric] filter_empty_conv)
  ultimately show ?thesis by simp
qed

theorem delete_category_existing_witness:
  "delete_category ''garden'' (snd (add_new_category demo_category_form demo_db)) =
     (Inr status_success,
      (snd (add_new_category demo_category_form demo_db))\<lparr>categories :=
         (categories (snd (add_new_category demo_category_form demo_db)))\<lparr>rows :=
           remove1 (new_category demo_category_form demo_db)
             (rows (categories (snd (add_new_category demo_category_form demo_db))))\<rparr>\<rparr>)
   \<and> get_category ''garden'' (snd (delete_category ''garden''
                                  (snd (add_new_category demo_category_form demo_db)))) = None"
proof -
  let ?s = "snd (add_new_category demo_category_form demo_db)"
  have s: "?s = demo_db\<lparr>categories := (categories demo_db)\<lparr>
             rows := rows (categories demo_db) @ [new_category demo_category_form demo_db], seq := 3\<rparr>\<rparr>"
    by (simp only: add_new_category_eq[OF demo_db_wf])
      (simp add: demo_defs demo_category_form_def slugs_def table_simps new_category_def)
  have wf: "wf_db ?s" using demo_db_wf by (rule wf_intros)
  have g: "get_category ''garden'' ?s = Some (new_category demo_category_form demo_db)"
    unfolding s by (simp add: demo_defs demo_category_form_def get_category_def select_where_def
      new_category_def)
  have "\<forall>th \<in> set (rows (themes ?s)). cat_id th \<noteq> row_id (new_category demo_category_form demo_db)"
    unfolding s by (simp add: demo_defs new_category_def)
  from delete_category_existing[OF wf g this] show ?thesis .
qed

text \<open>C23. Updating an existing task by slug, when it succeeds, returns the row
  with the form's columns under its old key, and \<open>get_task\<close> finds it
  under the new slug.\<close>

theorem update_task_then_get_task:
  assumes "wf_db s" and "update_task sl f s = (Inr (Some t), s')"
  shows "\<exists>r. get_task sl s = Some r \<and> t = set_task_values f r \<and> row_id t = row_id r
             \<and> get_task (tf_slug f) s' = Some t"
proof -
  obtain r where r: "get_task sl s = Some r"
    using assms by (cases "get_task sl s") (simp_all add: update_task_eq)
  from get_task_SomeD[OF r] have rin: "r \<in> set (rows (tasks s))" and sl: "slug r = sl" by simp_all
  have dist: "distinct (map slug (rows (tasks s)))"
    using assms(1) by (simp add: wf_db_def violation_None_iff slugs_def)
  from assms r have free: "tf_slug f = sl \<or> tf_slug f \<notin> set (slugs (tasks s))"
    and t: "t = set_task_values f r"
    and s': "s' = s\<lparr>tasks := snd (update_returning (\<lambda>t. slug t = sl) (set_task_values f) (tasks s))\<rparr>"
    by (auto simp: update_task_eq split: if_splits)
  have "filter (\<lambda>x. slug x = tf_slug f) (map (\<lambda>x. if slug x = sl then set_task_values f x else x)
          (rows (tasks s))) = [set_task_values f r]"
    using filter_update_key_single[OF dist rin sl, of "set_task_values f" "tf_slug f"] free
    by (simp add: slugs_def)
  then show ?thesis
    using r t by (simp add: s' get_task_def select_where_def table_simps)
qed

theorem update_task_then_get_task_witness:
  "update_task ''t1'' demo_task_form demo_db =
     (Inr (Some (set_task_values demo_task_form (hd (rows (tasks demo_db))))),
      snd (update_task ''t1'' demo_task_form demo_db)) \<and>
   get_task ''t9'' (snd (update_task ''t1'' demo_task_form demo_db)) =
     Some (set_task_values demo_task_form (hd (rows (tasks demo_db))))"
proof -
  have a: "update_task ''t1'' demo_task_form demo_db =
     (Inr (Some (set_task_values demo_task_form (hd (rows (tasks demo_db))))),
      snd (update_task ''t1'' demo_task_form demo_db))"
    by (simp only: update_task_eq[OF demo_db_wf])
      (simp add: demo_defs get_task_def select_where_def slugs_def ids_def)
  show ?thesis
    using update_task_then_get_task[OF demo_db_wf a] a by (auto simp: demo_task_form_def)
qed

text \<open>C24. Renaming a category to the slug of another category fails with the
  unique violation and changes nothing.\<close>

theorem update_category_slug_taken:
  assumes "wf_db s" and "get_category sl s = Some r" and "get_category (cf_slug f) s = Some c"
    and "cf_slug f \<noteq> sl"
  shows "update_category sl f s = (Inl (IntegrityError Category_slug_key), s)"
  using assms get_category_SomeD[OF assms(3)] by (force simp: update_category_eq slugs_def)

theorem update_category_slug_taken_witness:
  "update_category ''work'' (demo_category_form\<lparr>cf_slug := ''home''\<rparr>) demo_db =
     (Inl (IntegrityError Category_slug_key), demo_db)"
proof -
  have "get_category ''work'' demo_db = Some (hd (rows (categories demo_db)))"
    and "get_category (cf_slug (demo_category_form\<lparr>cf_slug := ''home''\<rparr>)) demo_db =
           Some (rows (categories demo_db) ! 1)"
    and "cf_slug (demo_category_form\<lparr>cf_slug := ''home''\<rparr>) \<noteq> ''work''"
    by (simp_all add: demo_defs get_category_def select_where_def)
  then show ?thesis by (rule update_category_slug_taken[OF demo_db_wf])
qed

text \<open>C25. When the caller's tasks have distinct creation dates, the listing
  contract determines the answer: any list that holds the caller's tasks
  once each, newest first, is what \<open>get_all_tasks\<close> returns.\<close>

theorem get_all_tasks_unique:
  assumes "distinct (map creation_date (filter (\<lambda>t. user_id t = u) (rows (tasks s))))"
    and "listing_spec creation_date (\<lambda>t. user_id t = u) (rows (tasks s)) ys"
  shows "get_all_tasks (Some u) s = Inr ys"
  using listing_spec_unique[OF assms(2,1)] by (simp add: get_all_tasks_def select_where_def)

theorem get_all_tasks_unique_witness:
  "distinct (map creation_date (filter (\<lambda>t. user_id t = 1) (rows (tasks demo_db)))) \<and>
   listing_spec creation_date (\<lambda>t. user_id t = 1) (rows (tasks demo_db)) [hd (rows (tasks demo_db))] \<and>
   get_all_tasks (Some 1) demo_db = Inr [hd (rows (tasks demo_db))]"
proof -
  have d: "distinct (map creation_date (filter (\<lambda>t. user_id t = 1) (rows (tasks demo_db))))"
    by (simp add: demo_defs)
  have l: "listing_spec creation_date (\<lambda>t. user_id t = 1) (rows (tasks demo_db)) [hd (rows (tasks demo_db))]"
    by (simp add: demo_defs listing_spec_def sorted_desc_def)
  show ?thesis using get_all_tasks_unique[OF d l] d l by simp
qed

subsection \<open>The route table\<close>

text \<open>C26. Round trip of the route table: the URL \<open>url_path_for\<close> builds
  from any route and valid parameter values is routed back to that route's
  handler with exactly those values; no route shadows another.\<close>

theorem url_path_for_roundtrip:
  assumes "rt \<in> set app_routes"
    and "\<forall>n \<in> set (endpoint_params (route_endpoint rt)). valid_segment (\<sigma> n)"
  shows "router_lookup app_routes (route_method rt) (url_path_for rt \<sigma>) =
           Found (route_endpoint rt) (map (\<lambda>n. (n, \<sigma> n)) (endpoint_params (route_endpoint rt)))"
  using assms
  unfolding app_routes_def category_routes_def task_routes_def mk_route_def
  by (simp only: set_simps insert_iff empty_iff append.simps)
    (elim disjE; simp add: url_path_for_def route_eval valid_segment_def router_lookup_method_first
      del: router_lookup.simps(2))

theorem url_path_for_roundtrip_witness:
  "mk_route ''/API/task'' PUT ''/{task_slug}/update'' UpdateTask \<in> set app_routes \<and>
   valid_segment ''t1'' \<and>
   router_lookup app_routes PUT ''/API/task/t1/update'' = Found UpdateTask [(''task_slug'', ''t1'')]"
proof -
  have m: "mk_route ''/API/task'' PUT ''/{task_slug}/update'' UpdateTask \<in> set app_routes"
    by (simp add: app_routes_def task_routes_def)
  have v: "\<forall>n \<in> set (endpoint_params (route_endpoint
      (mk_route ''/API/task'' PUT ''/{task_slug}/update'' UpdateTask))). valid_segment ((\<lambda>_. ''t1'') n)"
    by (simp add: mk_route_def valid_segment_def)
  from url_path_for_roundtrip[OF m v] m v show ?thesis
    by (simp add: mk_route_def url_path_for_def)
qed


subsection \<open>Failures, retries and runs\<close>

text \<open>C27. Deleting a task is safe to retry: whatever the first attempt did,
  including a lost reply, sending the same delete again reports success and
  leaves the store one delete leaves.\<close>

theorem delete_task_retry:
  assumes "wf_db s" and "valid_segment v" and "exec (delete_task_request v) s a s'"
  shows "dispatch (delete_task_request v) s' =
           (StatusResp status_success, snd (dispatch (delete_task_request v) s))"
proof -
  have wf': "wf_db s'" using exec_wf[OF assms(3,1)] .
  from exec_cases_store[OF assms(3)] show ?thesis
  proof
    assume "s' = s"
    then show ?thesis by (simp add: dispatch_delete_task_request assms(1,2))
  next
    assume "s' = snd (dispatch (delete_task_request v) s)"
    then show ?thesis
      using wf' by (simp add: dispatch_delete_task_request assms(1,2))
  qed
qed

theorem delete_task_retry_witness:
  "wf_db demo_db \<and> valid_segment ''t1'' \<and>
   exec (delete_task_request ''t1'') demo_db (ErrorResp StoreUnavailable)
     (snd (dispatch (delete_task_request ''t1'') demo_db)) \<and>
   dispatch (delete_task_request ''t1'') (snd (dispatch (delete_task_request ''t1'') demo_db)) =
     (StatusResp status_success, snd (dispatch (delete_task_request ''t1'') demo_db))"
proof -
  have v: "valid_segment ''t1''" by (simp add: valid_segment_def)
  have l: "router_lookup app_routes (req_method (delete_task_request ''t1''))
      (req_path (delete_task_request ''t1'')) = Found DeleteTask [(''task_slug'', ''t1'')]"
    using task_slug_lookups(3)[OF v] by (simp add: delete_task_request_def)
  have e: "exec (delete_task_request ''t1'') demo_db (ErrorResp StoreUnavailable)
      (snd (dispatch (delete_task_request ''t1'') demo_db))"
    using exec.lost_after_commit[OF l, where a = "fst (dispatch (delete_task_request ''t1'') demo_db)"
        and s' = "snd (dispatch (delete_task_request ''t1'') demo_db)"] by simp
  show ?thesis using delete_task_retry[OF demo_db_wf v e] demo_db_wf v e by blast
qed


text \<open>The create request of the client, as the router sees it.\<close>

lemma dispatch_create_task_request:
  "dispatch (create_task_request f) s = respond TaskResp (add_new_task f s)"
  using create_task_request_lookup[of f] by (simp add: dispatch_def create_task_request_def)

text \<open>C28. Creating a task is not safe to retry: when the reply to a create
  was lost, the retry creates the task (the first attempt did not reach the
  store) or fails with the unique violation of the slug although the task
  exists (it did). The client cannot tell the two cases apart.\<close>

theorem add_new_task_retry:
  assumes "wf_db s" and "fst (add_new_task f s) = Inr (Some t)"
    and "exec (create_task_request f) s (ErrorResp StoreUnavailable) s'"
  shows "(s' = s \<and> dispatch (create_task_request f) s' = (TaskResp (Some t), snd (add_new_task f s)))
       \<or> (s' = snd (add_new_task f s) \<and> t \<in> set (rows (tasks s')) \<and>
          dispatch (create_task_request f) s' = (ErrorResp (IntegrityError Task_slug_key), s'))"
proof -
  from assms(1,2) have t: "t = new_task f s"
    and s1: "snd (add_new_task f s) = s\<lparr>tasks := snd (insert_returning (\<lambda>i. task_of_form i f) (tasks s))\<rparr>"
    and free: "tf_slug f \<notin> set (slugs (tasks s))"
    by (simp_all add: add_new_task_eq split: if_splits)
  have wf1: "wf_db (snd (add_new_task f s))" using assms(1) by (rule wf_intros)
  have taken: "tf_slug f \<in> set (slugs (tasks (snd (add_new_task f s))))"
    by (simp add: s1 slugs_def table_simps)
  from exec_cases_store[OF assms(3)] show ?thesis
  proof
    assume "s' = s"
    then show ?thesis using assms(2)
      by (simp add: dispatch_create_task_request respond_def split: prod.splits)
  next
    assume s': "s' = snd (dispatch (create_task_request f) s)"
    then have s'': "s' = snd (add_new_task f s)"
      by (simp add: dispatch_create_task_request respond_def)
    have "t \<in> set (rows (tasks s'))" by (simp add: s'' s1 t new_task_def table_simps)
    moreover have "dispatch (create_task_request f) s' = (ErrorResp (IntegrityError Task_slug_key), s')"
      using taken wf1 by (simp add: s'' dispatch_create_task_request respond_def add_new_task_eq)
    ultimately show ?thesis using s'' by blast
  qed
qed

theorem add_new_task_retry_witness:
  "fst (add_new_task demo_task_form demo_db) = Inr (Some (new_task demo_task_form demo_db)) \<and>
   exec (create_task_request demo_task_form) demo_db (ErrorResp StoreUnavailable)
     (snd (add_new_task demo_task_form demo_db)) \<and>
   dispatch (create_task_request demo_task_form) (snd (add_new_task demo_task_form demo_db)) =
     (ErrorResp (IntegrityError Task_slug_key), snd (add_new_task demo_task_form demo_db))"
proof -
  have a: "fst (add_new_task demo_task_form demo_db) = Inr (Some (new_task demo_task_form demo_db))"
    by (simp add: demo_add_new_task)
  have l: "router_lookup app_routes (req_method (create_task_request demo_task_form))
      (req_path (create_task_request demo_task_form)) = Found AddNewTask []"
    by (rule create_task_request_lookup)
  have e: "exec (create_task_request demo_task_form) demo_db (ErrorResp StoreUnavailable)
      (snd (add_new_task demo_task_form demo_db))"
    using exec.lost_after_commit[OF l, where a = "fst (dispatch (create_task_request demo_task_form) demo_db)"
        and s' = "snd (dispatch (create_task_request demo_task_form) demo_db)"]
    by (simp add: dispatch_create_task_request respond_def)
  have "length (rows (tasks (snd (add_new_task demo_task_form demo_db)))) = 3"
    unfolding demo_add_new_task by (simp add: demo_defs table_simps)
  then have ne: "snd (add_new_task demo_task_form demo_db) \<noteq> demo_db"
    by (auto simp: demo_db_def)
  show ?thesis using add_new_task_retry[OF demo_db_wf a e] a e ne by auto
qed

text \<open>C29. Liveness: from a well-formed store whose task slugs are all valid,
  the API can always reach a store without tasks, by deleting them one
  by one.\<close>

theorem empty_tasks_reachable:
  assumes "wf_db s" and "\<forall>t \<in> set (rows (tasks s)). valid_segment (slug t)"
  shows "\<exists>s'. api_reachable s s' \<and> wf_db s' \<and> rows (tasks s') = []"
proof -
  let ?rs = "map delete_task_request (map slug (rows (tasks s)))"
  have "\<forall>v \<in> set (map slug (rows (tasks s))). valid_segment v" using assms(2) by simp
  from serve_delete_tasks[OF assms(1) this]
  have "rows (tasks (snd (serve ?rs s))) = [] \<and> wf_db (snd (serve ?rs s))"
    by (simp add: filter_empty_conv)
  moreover have "api_reachable s (snd (serve ?rs s))"
    by (rule api_reachable_serve[OF api_reachable.init])
  ultimately show ?thesis by blast
qed

theorem empty_tasks_reachable_witness:
  "wf_db demo_db \<and> valid_segment ''t1'' \<and> valid_segment ''t3'' \<and>
   (\<exists>s'. api_reachable demo_db s' \<and> wf_db s' \<and> rows (tasks s') = [])"
proof -
  have v: "\<forall>t \<in> set (rows (tasks demo_db)). valid_segment (slug t)"
    by (simp add: demo_defs valid_segment_def)
  show ?thesis using empty_tasks_reachable[OF demo_db_wf v] demo_db_wf
    by (simp add: valid_segment_def)
qed

subsection \<open>The theme table is outside the API\<close>



end
